theory Spec2Isabelle
  imports Main "HOL-Library.Word" "HOL-Library.Log_Nat" "HOL-Library.Multiset"
    "HOL-Library.List_Lexorder"
begin

unbundle bit_operations_syntax

chapter \<open>cameractrls: the control backends of cameractrls.py\<close>

text \<open>
  A shallow embedding of the control backend layer of \<^verbatim>\<open>cameractrls.py\<close>.
  Python integers are \<^typ>\<open>int\<close>; fields of ctypes structures are words of their width;
  \<^verbatim>\<open>bytes\<close> objects are lists of 8-bit words; text is \<^typ>\<open>string\<close>, whose characters are
  exactly the code points 0 to 255. An exception that leaves a function is the \<open>Inl\<close>
  branch of its result.
\<close>

section \<open>Python values and exceptions\<close>

type_synonym bytes = "8 word list"

datatype exn = ValueError | TypeError | OverflowError | AssertionError | IndexError
  | AttributeError | ZeroDivisionError
  | UnicodeDecodeError

section \<open>Four-character pixel format codes\<close>

text \<open>
  \<^verbatim>\<open>def str2pxf(str):
    return ord(str[0]) | (ord(str[1]) << 8) | (ord(str[2]) << 16) | (ord(str[3]) << 24)\<close>
  Indexing a string shorter than four characters raises IndexError.
\<close>

definition str2pxf :: "string \<Rightarrow> exn + int" where
  "str2pxf str =
     (if length str < 4 then Inl IndexError
      else Inr (((of_char (str ! 0) OR push_bit 8 (of_char (str ! 1)))
                  OR push_bit 16 (of_char (str ! 2))) OR push_bit 24 (of_char (str ! 3))))"

text \<open>
  \<^verbatim>\<open>def pxf2str(pxf):
    return chr(pxf & 0xff) + chr(pxf >> 8 & 0xff) + chr(pxf >> 16 & 0xff) + chr(pxf >> 24 & 0xff)\<close>
  In Python \<^verbatim>\<open>>>\<close> binds tighter than \<^verbatim>\<open>&\<close>.
\<close>

definition pxf2str :: "int \<Rightarrow> string" where
  "pxf2str pxf =
     [char_of (pxf AND 255), char_of (drop_bit 8 pxf AND 255),
      char_of (drop_bit 16 pxf AND 255), char_of (drop_bit 24 pxf AND 255)]"

section \<open>Extension unit discovery in sysfs\<close>

text \<open>
  The part of the file system that \<^verbatim>\<open>find_unit_id_in_sysfs\<close> looks at:
  \<^verbatim>\<open>os.path.islink\<close>, \<^verbatim>\<open>os.readlink\<close>, \<^verbatim>\<open>os.path.isfile\<close> and the content read from a
  file opened in binary mode (\<open>None\<close> when opening or reading raises).
\<close>

record sysfs =
  islink :: "string \<Rightarrow> bool"
  readlink :: "string \<Rightarrow> string"
  isfile :: "string \<Rightarrow> bool"
  read_rb :: "string \<Rightarrow> bytes option"

text \<open>\<^verbatim>\<open>os.path.basename\<close>: what follows the last slash.\<close>

definition basename :: "string \<Rightarrow> string" where
  "basename p = rev (takeWhile (\<lambda>c. c \<noteq> CHR ''/'') (rev p))"

text \<open>
  \<^verbatim>\<open>bytes.find(sub)\<close>: the lowest index at which \<open>sub\<close> occurs, or \<open>-1\<close>.
  \<open>find_from sub bs i\<close> searches \<open>bs\<close>, whose first byte has index \<open>i\<close>.
\<close>

fun find_from :: "'a list \<Rightarrow> 'a list \<Rightarrow> nat \<Rightarrow> int" where
  "find_from sub [] i = (if sub = [] then int i else -1)"
| "find_from sub (b # bs) i =
     (if take (length sub) (b # bs) = sub then int i else find_from sub bs (Suc i))"

definition bytes_find :: "'a list \<Rightarrow> 'a list \<Rightarrow> int" where
  "bytes_find bs sub = find_from sub bs 0"

text \<open>
  \<^verbatim>\<open>def find_unit_id_in_sysfs(device, guid):
    if os.path.islink(device):
        device = os.readlink(device)
    device = os.path.basename(device)
    descfile = f'/sys/class/video4linux/{device}/../../../descriptors'
    if not os.path.isfile(descfile):
        return 0
    try:
        with open(descfile, 'rb') as f:
            descriptors = f.read()
            guid_start = descriptors.find(guid)
            if guid_start > 0:
                return descriptors[guid_start - 1]
    except Exception as e:
        logging.warning(...)
    return 0\<close>
\<close>

definition descfile :: "sysfs \<Rightarrow> string \<Rightarrow> string" where
  "descfile fs device =
     (let device = (if islink fs device then readlink fs device else device);
          device = basename device
      in ''/sys/class/video4linux/'' @ device @ ''/../../../descriptors'')"

definition find_unit_id_in_sysfs :: "sysfs \<Rightarrow> string \<Rightarrow> bytes \<Rightarrow> int" where
  "find_unit_id_in_sysfs fs device guid =
     (if \<not> isfile fs (descfile fs device) then 0
      else case read_rb fs (descfile fs device) of
        None \<Rightarrow> 0
      | Some descriptors \<Rightarrow>
          (let guid_start = bytes_find descriptors guid
           in if guid_start > 0 then uint (descriptors ! nat (guid_start - 1)) else 0))"

text \<open>
  The descriptor blob the scan works on: absent when the descriptors file is no regular
  file or cannot be read.
\<close>

definition descriptor_source :: "sysfs \<Rightarrow> string \<Rightarrow> bytes option" where
  "descriptor_source fs device =
     (if isfile fs (descfile fs device) then read_rb fs (descfile fs device) else None)"

text \<open>\<open>occurs_at sub bs i\<close>: the bytes of \<open>sub\<close> stand in \<open>bs\<close> from index \<open>i\<close> on.\<close>

definition occurs_at :: "'a list \<Rightarrow> 'a list \<Rightarrow> nat \<Rightarrow> bool" where
  "occurs_at sub bs i \<longleftrightarrow> i + length sub \<le> length bs \<and> take (length sub) (drop i bs) = sub"

definition first_occurrence :: "'a list \<Rightarrow> 'a list \<Rightarrow> nat \<Rightarrow> bool" where
  "first_occurrence sub bs i \<longleftrightarrow> occurs_at sub bs i \<and> (\<forall>j<i. \<not> occurs_at sub bs j)"

subsection \<open>The vendor backends' \<^verbatim>\<open>supported()\<close>\<close>

definition UVC_EU1_GUID :: bytes where
  "UVC_EU1_GUID = [0xd0, 0x9e, 0xe4, 0x23, 0x78, 0x11, 0x31, 0x4f,
                   0xae, 0x52, 0xd2, 0xfb, 0x8a, 0x8d, 0x3b, 0x48]"

definition DELL_ULTRASHARP_GUID :: bytes where
  "DELL_ULTRASHARP_GUID = [0xd0, 0x9e, 0xe4, 0x23, 0x78, 0x11, 0x31, 0x4f,
                           0xae, 0x52, 0xd2, 0xfb, 0x8a, 0x8d, 0x3b, 0x48]"

definition ANKERWORK_GUID :: bytes where
  "ANKERWORK_GUID = [0xa2, 0x9e, 0x76, 0x41, 0xde, 0x04, 0x47, 0xe3,
                     0x8b, 0x2b, 0xf4, 0x34, 0x1a, 0xff, 0x00, 0x3b]"

definition KIYO_PRO_USB_ID :: string where
  "KIYO_PRO_USB_ID = ''1532:0e05''"

definition DELL_ULTRASHARP_DEV_MATCH :: "string list" where
  "DELL_ULTRASHARP_DEV_MATCH = [''413c:c015'']"

definition ANKERWORK_DEV_MATCH :: "string list" where
  "ANKERWORK_DEV_MATCH = [''291a:3367'']"

text \<open>
  Each backend resolves its unit id once, in its constructor, and
  \<^verbatim>\<open>supported()\<close> is \<^verbatim>\<open>self.unit_id != 0 and self.usb_ids == KIYO_PRO_USB_ID\<close>
  (Kiyo Pro), \<^verbatim>\<open>self.unit_id != 0 and self.usb_ids in ..._DEV_MATCH\<close> (Dell, AnkerWork).
  The second argument is the result of \<^verbatim>\<open>find_usb_ids_in_sysfs\<close>.
\<close>

definition kiyo_pro_supported :: "sysfs \<Rightarrow> string \<Rightarrow> string \<Rightarrow> bool" where
  "kiyo_pro_supported fs device usb_ids \<longleftrightarrow>
     find_unit_id_in_sysfs fs device UVC_EU1_GUID \<noteq> 0 \<and> usb_ids = KIYO_PRO_USB_ID"

definition dell_ultrasharp_supported :: "sysfs \<Rightarrow> string \<Rightarrow> string \<Rightarrow> bool" where
  "dell_ultrasharp_supported fs device usb_ids \<longleftrightarrow>
     find_unit_id_in_sysfs fs device DELL_ULTRASHARP_GUID \<noteq> 0
     \<and> usb_ids \<in> set DELL_ULTRASHARP_DEV_MATCH"

definition ankerwork_supported :: "sysfs \<Rightarrow> string \<Rightarrow> string \<Rightarrow> bool" where
  "ankerwork_supported fs device usb_ids \<longleftrightarrow>
     find_unit_id_in_sysfs fs device ANKERWORK_GUID \<noteq> 0 \<and> usb_ids \<in> set ANKERWORK_DEV_MATCH"

text \<open>
  The Logitech backend looks four units up and is supported when it found a control:
  \<^verbatim>\<open>supported()\<close> is \<^verbatim>\<open>len(self.ctrls) != 0\<close>. The model keeps the text ids of the
  controls that \<^verbatim>\<open>get_device_controls\<close> appends, block by block; \<open>try_xu\<close> is
  \<^verbatim>\<open>try_xu_control(self.fd, unit_id, selector)\<close>.
\<close>

definition LOGITECH_PERIPHERAL_GUID :: bytes where
  "LOGITECH_PERIPHERAL_GUID = [0x21, 0x2d, 0xe5, 0xff, 0x30, 0x80, 0x2c, 0x4e,
                               0x82, 0xd9, 0xf5, 0x87, 0xd0, 0x05, 0x40, 0xbd]"

definition LOGITECH_USER_HW_CONTROL_V1_GUID :: bytes where
  "LOGITECH_USER_HW_CONTROL_V1_GUID = [0x82, 0x06, 0x61, 0x63, 0x70, 0x50, 0xab, 0x49,
                                       0xb8, 0xcc, 0xb3, 0x85, 0x5e, 0x8d, 0x22, 0x1f]"

definition LOGITECH_MOTOR_CONTROL_V1_GUID :: bytes where
  "LOGITECH_MOTOR_CONTROL_V1_GUID = [0x82, 0x06, 0x61, 0x63, 0x70, 0x50, 0xab, 0x49,
                                     0xb8, 0xcc, 0xb3, 0x85, 0x5e, 0x8d, 0x22, 0x56]"

definition LOGITECH_BRIO_GUID :: bytes where
  "LOGITECH_BRIO_GUID = [0x15, 0x02, 0xe4, 0x49, 0x34, 0xf4, 0xfe, 0x47,
                         0xb1, 0x58, 0x0e, 0x88, 0x50, 0x23, 0xe5, 0x1b]"

definition LOGITECH_PRESET_DEV_MATCH :: "string list" where
  "LOGITECH_PRESET_DEV_MATCH = [''046d:0853'', ''046d:0858'', ''046d:085f'', ''046d:0866'',
                                ''046d:0881'', ''046d:0888'', ''046d:0889'']"

definition LOGITECH_MOTOR_CONTROL_FOCUS_DEV_MATCH :: "string list" where
  "LOGITECH_MOTOR_CONTROL_FOCUS_DEV_MATCH =
     [''046d:0809'', ''046d:0990'', ''046d:0991'', ''046d:0994'']"

definition LOGITECH_BRIO_FOV_DEV_MATCH :: "string list" where
  "LOGITECH_BRIO_FOV_DEV_MATCH = [''046d:085e'', ''046d:0943'', ''046d:0946'', ''046d:0919'',
                                  ''046d:086b'', ''046d:0944'']"

definition LOGITECH_PERIPHERAL_LED1_SEL :: int where "LOGITECH_PERIPHERAL_LED1_SEL = 0x09"
definition LOGITECH_PERIPHERAL_PANTILT_REL_SEL :: int where
  "LOGITECH_PERIPHERAL_PANTILT_REL_SEL = 0x01"
definition LOGITECH_PERIPHERAL_PANTILT_RESET_SEL :: int where
  "LOGITECH_PERIPHERAL_PANTILT_RESET_SEL = 0x02"
definition LOGITECH_PERIPHERAL_PANTILT_PRESET_SEL :: int where
  "LOGITECH_PERIPHERAL_PANTILT_PRESET_SEL = 0x02"

definition logitech_get_device_controls ::
  "sysfs \<Rightarrow> string \<Rightarrow> string \<Rightarrow> (int \<Rightarrow> int \<Rightarrow> bool) \<Rightarrow> string list" where
  "logitech_get_device_controls fs device usb_ids try_xu =
     (let peripheral_unit_id = find_unit_id_in_sysfs fs device LOGITECH_PERIPHERAL_GUID;
          ctrls = [];
          ctrls = (if peripheral_unit_id \<noteq> 0 then
             (let ctrls = (if try_xu peripheral_unit_id LOGITECH_PERIPHERAL_LED1_SEL
                           then ctrls @ [''logitech_led1_mode'', ''logitech_led1_frequency'']
                           else ctrls);
                  ctrls = (if try_xu peripheral_unit_id LOGITECH_PERIPHERAL_PANTILT_REL_SEL
                           then ctrls @ [''logitech_pan_relative'', ''logitech_tilt_relative'']
                           else ctrls);
                  ctrls = (if try_xu peripheral_unit_id LOGITECH_PERIPHERAL_PANTILT_RESET_SEL
                           then ctrls @ [''logitech_pantilt_reset''] else ctrls);
                  ctrls = (if try_xu peripheral_unit_id LOGITECH_PERIPHERAL_PANTILT_PRESET_SEL
                              \<and> usb_ids \<in> set LOGITECH_PRESET_DEV_MATCH
                           then ctrls @ [''logitech_pantilt_preset''] else ctrls)
              in ctrls) else ctrls);
          user_hw_unit_id = find_unit_id_in_sysfs fs device LOGITECH_USER_HW_CONTROL_V1_GUID;
          ctrls = (if user_hw_unit_id \<noteq> 0
                   then ctrls @ [''logitech_led1_mode'', ''logitech_led1_frequency'']
                   else ctrls);
          motor_control_unit_id = find_unit_id_in_sysfs fs device LOGITECH_MOTOR_CONTROL_V1_GUID;
          ctrls = (if motor_control_unit_id \<noteq> 0
                      \<and> usb_ids \<in> set LOGITECH_MOTOR_CONTROL_FOCUS_DEV_MATCH
                   then ctrls @ [''logitech_motor_focus''] else ctrls);
          brio_unit_id = find_unit_id_in_sysfs fs device LOGITECH_BRIO_GUID;
          ctrls = (if brio_unit_id \<noteq> 0 \<and> usb_ids \<in> set LOGITECH_BRIO_FOV_DEV_MATCH
                   then ctrls @ [''logitech_brio_fov''] else ctrls)
      in ctrls)"

definition logitech_supported ::
  "sysfs \<Rightarrow> string \<Rightarrow> string \<Rightarrow> (int \<Rightarrow> int \<Rightarrow> bool) \<Rightarrow> bool" where
  "logitech_supported fs device usb_ids try_xu \<longleftrightarrow>
     length (logitech_get_device_controls fs device usb_ids try_xu) \<noteq> 0"

text \<open>The GUIDs the Logitech backend scans for.\<close>

definition logitech_guids :: "bytes list" where
  "logitech_guids = [LOGITECH_PERIPHERAL_GUID, LOGITECH_USER_HW_CONTROL_V1_GUID,
     LOGITECH_MOTOR_CONTROL_V1_GUID, LOGITECH_BRIO_GUID]"

text \<open>
  A descriptors file for the examples: one byte \<open>0x05\<close> and the AnkerWork GUID, found
  under the name of the video device.
\<close>

definition example_sysfs :: "bytes \<Rightarrow> sysfs" where
  "example_sysfs blob =
     \<lparr> islink = (\<lambda>p. False), readlink = (\<lambda>p. p),
       isfile = (\<lambda>p. p = ''/sys/class/video4linux/video0/../../../descriptors''),
       read_rb = (\<lambda>p. Some blob) \<rparr>"

section \<open>Decimal text\<close>

text \<open>\<^verbatim>\<open>str(n)\<close> of a non-negative integer, and of any integer.\<close>

definition digit_char :: "nat \<Rightarrow> char" where
  "digit_char d = char_of (48 + d)"

fun str_of_nat :: "nat \<Rightarrow> string" where
  "str_of_nat n =
     (if n < 10 then [digit_char n] else str_of_nat (n div 10) @ [digit_char (n mod 10)])"

declare str_of_nat.simps [simp del]

definition str_of_int :: "int \<Rightarrow> string" where
  "str_of_int i = (if i < 0 then CHR ''-'' # str_of_nat (nat (- i)) else str_of_nat (nat i))"

definition is_digit :: "char \<Rightarrow> bool" where
  "is_digit c \<longleftrightarrow> 48 \<le> (of_char c :: nat) \<and> (of_char c :: nat) \<le> 57"

definition digit_val :: "char \<Rightarrow> nat" where
  "digit_val c = of_char c - 48"

definition nat_of_digits :: "string \<Rightarrow> nat" where
  "nat_of_digits s = foldl (\<lambda>acc c. 10 * acc + digit_val c) 0 s"

text \<open>
  How \<^verbatim>\<open>int\<close> and \<^verbatim>\<open>float\<close> read a number from a text. An underscore may stand between
  two digits and nowhere else (the scan keeps the character before: an underscore must
  follow a digit, and a digit must follow an underscore); the underscores are then
  dropped. Blanks around the number are dropped too: for a \<^verbatim>\<open>str\<close>, the characters that
  Unicode counts as white space (below 256: 9 to 13, 28 to 32, 133 and 160), for a
  \<^verbatim>\<open>bytes\<close> object the ASCII ones.
\<close>

definition is_space :: "char \<Rightarrow> bool" where
  "is_space c \<longleftrightarrow> (of_char c :: nat) \<in> set [9, 10, 11, 12, 13, 28, 29, 30, 31, 32, 133, 160]"

definition is_space_ascii :: "char \<Rightarrow> bool" where
  "is_space_ascii c \<longleftrightarrow> (of_char c :: nat) \<in> set [9, 10, 11, 12, 13, 32]"

definition strip_with :: "(char \<Rightarrow> bool) \<Rightarrow> string \<Rightarrow> string" where
  "strip_with sp s = rev (dropWhile sp (rev (dropWhile sp s)))"

fun underscores_ok :: "char \<Rightarrow> string \<Rightarrow> bool" where
  "underscores_ok prev [] \<longleftrightarrow> prev \<noteq> CHR ''_''"
| "underscores_ok prev (c # cs) \<longleftrightarrow>
     (if c = CHR ''_'' then is_digit prev else prev \<noteq> CHR ''_'' \<or> is_digit c)
     \<and> underscores_ok c cs"

definition number_text :: "(char \<Rightarrow> bool) \<Rightarrow> string \<Rightarrow> string option" where
  "number_text sp s =
     (if underscores_ok (CHR 0x00) s
      then Some (strip_with sp (filter (\<lambda>c. c \<noteq> CHR ''_'') s)) else None)"

text \<open>\<^verbatim>\<open>s.lower()\<close>, for the letters A to Z.\<close>

definition ascii_lower :: "string \<Rightarrow> string" where
  "ascii_lower s =
     map (\<lambda>c. if 65 \<le> (of_char c :: nat) \<and> (of_char c :: nat) \<le> 90
              then char_of (of_char c + 32 :: nat) else c) s"

text \<open>
  \<^verbatim>\<open>int(s)\<close> of a text, in base 10: an optional sign and decimal digits, with the
  underscores and blanks described above; anything else is a ValueError.
\<close>

definition int_of_text :: "(char \<Rightarrow> bool) \<Rightarrow> string \<Rightarrow> exn + int" where
  "int_of_text sp s =
     (case number_text sp s of
        None \<Rightarrow> Inl ValueError
      | Some t \<Rightarrow>
          (let neg = (t \<noteq> [] \<and> hd t = CHR ''-'');
               ds = (if t \<noteq> [] \<and> (hd t = CHR ''-'' \<or> hd t = CHR ''+'') then tl t else t)
           in if ds \<noteq> [] \<and> list_all is_digit ds
              then Inr (if neg then - int (nat_of_digits ds) else int (nat_of_digits ds))
              else Inl ValueError))"

definition int_of_str :: "string \<Rightarrow> exn + int" where
  "int_of_str s = int_of_text is_space s"

definition int_of_bytes :: "bytes \<Rightarrow> exn + int" where
  "int_of_bytes b = int_of_text is_space_ascii (map (\<lambda>w. char_of (unat w)) b)"

text \<open>\<^verbatim>\<open>s.split(sep)\<close> for a one-character separator.\<close>

fun split_on :: "char \<Rightarrow> string \<Rightarrow> string list" where
  "split_on sep [] = [[]]"
| "split_on sep (c # cs) =
     (if c = sep then [] # split_on sep cs
      else (case split_on sep cs of w # ws \<Rightarrow> (c # w) # ws | [] \<Rightarrow> [[c]]))"

text \<open>Running a list of computations, stopping at the first exception.\<close>

fun collect :: "(exn + 'a) list \<Rightarrow> exn + 'a list" where
  "collect [] = Inr []"
| "collect (r # rs) =
     (case r of Inl e \<Rightarrow> Inl e
      | Inr x \<Rightarrow> (case collect rs of Inl e \<Rightarrow> Inl e | Inr xs \<Rightarrow> Inr (x # xs)))"

text \<open>
  \<^verbatim>\<open>xs.sort(key=key, reverse=True)\<close>: the keys are computed first (an exception from
  the key function leaves the sort); the sort is stable, and with \<^verbatim>\<open>reverse=True\<close>
  elements with equal keys keep their order: the list is reversed, sorted and reversed
  again.
\<close>

definition sort_key_reverse :: "('a \<Rightarrow> exn + 'k::linorder) \<Rightarrow> 'a list \<Rightarrow> exn + 'a list" where
  "sort_key_reverse key xs =
     (case collect (map key xs) of
        Inl e \<Rightarrow> Inl e
      | Inr ks \<Rightarrow> Inr (map snd (rev (sort_key fst (rev (zip ks xs))))))"

section \<open>Format controls\<close>

record v4l2_frmsizeenum =
  frmsize_type :: "32 word"
  discrete_width :: "32 word"
  discrete_height :: "32 word"

definition V4L2_FRMSIZE_TYPE_DISCRETE :: "32 word" where
  "V4L2_FRMSIZE_TYPE_DISCRETE = 1"

text \<open>\<^verbatim>\<open>def wh2str(wh): return f'{wh.width}x{wh.height}'\<close>\<close>

definition wh2str :: "32 word \<times> 32 word \<Rightarrow> string" where
  "wh2str wh = str_of_nat (unat (fst wh)) @ ''x'' @ str_of_nat (unat (snd wh))"

text \<open>
  \<^verbatim>\<open>def get_resolutions(self, pixelformat):
    resolutions = []
    frm = v4l2_frmsizeenum()
    frm.pixel_format = pixelformat
    while True:
        try:
            ioctl(self.fd, VIDIOC_ENUM_FRAMESIZES, frm)
        except:
            break
        if frm.type != V4L2_FRMSIZE_TYPE_DISCRETE:
            break
        resolutions.append(wh2str(frm.discrete))
        frm.index += 1
    resolutions.sort(key=lambda r: list(map(int, r.split('x'))), reverse=True)
    return resolutions\<close>
  The argument \<open>ioctl\<close> is the device's answer to \<^verbatim>\<open>VIDIOC_ENUM_FRAMESIZES\<close> for a
  pixel format and an index (\<open>None\<close> when the call raises); of the structure it fills
  in, the model keeps the type and the discrete size. The index is a \<^verbatim>\<open>c_uint32\<close>. The
  loop runs as long as the device answers with discrete sizes, so it is a partial
  function: not returning is the value \<open>None\<close>.
\<close>

partial_function (option) enum_framesizes ::
  "(32 word \<Rightarrow> 32 word \<Rightarrow> v4l2_frmsizeenum option) \<Rightarrow> 32 word \<Rightarrow> 32 word \<Rightarrow> string list
    \<Rightarrow> string list option" where
  "enum_framesizes ioctl pixelformat index resolutions =
     (case ioctl pixelformat index of
        None \<Rightarrow> Some resolutions
      | Some frm \<Rightarrow>
          if frmsize_type frm \<noteq> V4L2_FRMSIZE_TYPE_DISCRETE then Some resolutions
          else enum_framesizes ioctl pixelformat (index + 1)
                 (resolutions @ [wh2str (discrete_width frm, discrete_height frm)]))"

declare enum_framesizes.simps [code]

definition resolution_key :: "string \<Rightarrow> exn + int list" where
  "resolution_key r = collect (map int_of_str (split_on CHR ''x'' r))"

definition get_resolutions ::
  "(32 word \<Rightarrow> 32 word \<Rightarrow> v4l2_frmsizeenum option) \<Rightarrow> 32 word \<Rightarrow> (exn + string list) option" where
  "get_resolutions ioctl pixelformat =
     map_option (sort_key_reverse resolution_key) (enum_framesizes ioctl pixelformat 0 [])"

text \<open>A device whose discrete sizes are those of a list, for the examples.\<close>

definition list_driver :: "(32 word \<times> 32 word) list \<Rightarrow> 32 word \<Rightarrow> 32 word \<Rightarrow> v4l2_frmsizeenum option" where
  "list_driver sizes pixelformat index =
     (if unat index < length sizes
      then Some \<lparr> frmsize_type = V4L2_FRMSIZE_TYPE_DISCRETE,
                  discrete_width = fst (sizes ! unat index),
                  discrete_height = snd (sizes ! unat index) \<rparr>
      else None)"


text \<open>
  The order the claim speaks of: pixel areas, read from the texts, never increase along
  the list.
\<close>

definition resolution_area :: "string \<Rightarrow> int" where
  "resolution_area r = (case resolution_key r of Inr [w, h] \<Rightarrow> w * h | _ \<Rightarrow> 0)"

definition area_descending :: "string list \<Rightarrow> bool" where
  "area_descending rs = sorted_wrt (\<lambda>r1 r2. resolution_area r1 \<ge> resolution_area r2) rs"

text \<open>
  The order the sort key gives on sizes, and on lists: widths never increase, and among
  equal widths heights never increase.
\<close>

definition wh_key :: "32 word \<times> 32 word \<Rightarrow> int list" where
  "wh_key wh = [uint (fst wh), uint (snd wh)]"

definition wh_descending :: "(32 word \<times> 32 word) list \<Rightarrow> bool" where
  "wh_descending sizes =
     sorted_wrt (\<lambda>a b. fst b < fst a \<or> (fst a = fst b \<and> snd b \<le> snd a)) sizes"

text \<open>
  A device that answers the indices below \<open>length sizes\<close> with the discrete sizes of the
  list, and the next index with an error or a size that is not discrete.
\<close>

definition answers_sizes ::
  "(32 word \<Rightarrow> 32 word \<Rightarrow> v4l2_frmsizeenum option) \<Rightarrow> 32 word \<Rightarrow> (32 word \<times> 32 word) list \<Rightarrow> bool"
  where
  "answers_sizes ioctl pixelformat sizes \<longleftrightarrow>
     (\<forall>i < length sizes. ioctl pixelformat (of_nat i) =
        Some \<lparr> frmsize_type = V4L2_FRMSIZE_TYPE_DISCRETE,
               discrete_width = fst (sizes ! i), discrete_height = snd (sizes ! i) \<rparr>)
     \<and> (case ioctl pixelformat (of_nat (length sizes)) of
          None \<Rightarrow> True
        | Some frm \<Rightarrow> frmsize_type frm \<noteq> V4L2_FRMSIZE_TYPE_DISCRETE)"

section \<open>Floating point numbers\<close>

text \<open>
  A Python \<^verbatim>\<open>float\<close> is an IEEE 754 double: a finite value (a rational number that the
  format represents), an infinity (\<open>Inf True\<close> is the negative one) or a NaN. The sign
  of a zero is not kept: no result modelled here depends on it.
\<close>

datatype pyfloat = Fin rat | Inf bool | NaN

text \<open>Rounding to the nearest integer, a tie going to the even neighbour.\<close>

definition round_half_even :: "rat \<Rightarrow> int" where
  "round_half_even x =
     (let f = \<lfloor>x\<rfloor>; r = x - of_int f
      in if r < 1 / 2 then f else if 1 / 2 < r then f + 1 else if even f then f else f + 1)"

text \<open>\<open>ilog2 x\<close> is the integer part of the binary logarithm of a positive \<open>x\<close>.\<close>

definition ilog2 :: "rat \<Rightarrow> int" where
  "ilog2 x =
     (let (p, q) = quotient_of x; k = bitlen p - bitlen q
      in if 2 powi k \<le> x then k else k - 1)"

text \<open>
  The double nearest to a rational number (round to nearest, ties to even): 53
  significant bits, no spacing below \<open>2 ^ -1074\<close>, and an infinity when the rounded
  value \<open>m * 2 ^ e\<close> reaches \<open>2 ^ 1024\<close>, that is, when \<open>m\<close> has more than \<open>1024 - e\<close>
  binary digits.
\<close>

definition round_double :: "rat \<Rightarrow> pyfloat" where
  "round_double x =
     (if x = 0 then Fin 0
      else let a = \<bar>x\<bar>;
               e = max (ilog2 a - 52) (- 1074);
               m = round_half_even (a / 2 powi e)
           in if 1024 - e < bitlen m then Inf (x < 0)
              else Fin (if x < 0 then - (of_int m * 2 powi e) else of_int m * 2 powi e))"

text \<open>
  Arithmetic on floats: the exact result, rounded. An \<^verbatim>\<open>int\<close> operand is converted
  first, which raises OverflowError when it is too large for a double.
\<close>

fun float_mul :: "pyfloat \<Rightarrow> pyfloat \<Rightarrow> pyfloat" where
  "float_mul NaN y = NaN"
| "float_mul x NaN = NaN"
| "float_mul (Fin a) (Fin b) = round_double (a * b)"
| "float_mul (Fin a) (Inf s) = (if a = 0 then NaN else Inf (s \<noteq> (a < 0)))"
| "float_mul (Inf s) (Fin b) = (if b = 0 then NaN else Inf (s \<noteq> (b < 0)))"
| "float_mul (Inf s) (Inf t) = Inf (s \<noteq> t)"

fun float_add :: "pyfloat \<Rightarrow> pyfloat \<Rightarrow> pyfloat" where
  "float_add NaN y = NaN"
| "float_add x NaN = NaN"
| "float_add (Fin a) (Fin b) = round_double (a + b)"
| "float_add (Fin a) (Inf s) = Inf s"
| "float_add (Inf s) (Fin b) = Inf s"
| "float_add (Inf s) (Inf t) = (if s = t then Inf s else NaN)"

text \<open>\<^verbatim>\<open>x / y\<close> on floats raises ZeroDivisionError when \<open>y\<close> is zero.\<close>

fun float_truediv :: "pyfloat \<Rightarrow> pyfloat \<Rightarrow> exn + pyfloat" where
  "float_truediv x (Fin b) =
     (if b = 0 then Inl ZeroDivisionError
      else case x of Fin a \<Rightarrow> Inr (round_double (a / b))
           | Inf s \<Rightarrow> Inr (Inf (s \<noteq> (b < 0)))
           | NaN \<Rightarrow> Inr NaN)"
| "float_truediv x (Inf t) = (case x of Fin a \<Rightarrow> Inr (Fin 0) | _ \<Rightarrow> Inr NaN)"
| "float_truediv x NaN = Inr NaN"

definition float_of_int :: "int \<Rightarrow> exn + pyfloat" where
  "float_of_int i =
     (case round_double (of_int i) of Fin x \<Rightarrow> Inr (Fin x) | _ \<Rightarrow> Inl OverflowError)"

text \<open>\<^verbatim>\<open>a / b\<close> on two integers: the quotient, rounded once.\<close>

definition int_truediv :: "int \<Rightarrow> int \<Rightarrow> exn + pyfloat" where
  "int_truediv a b =
     (if b = 0 then Inl ZeroDivisionError
      else case round_double (of_int a / of_int b) of
             Fin x \<Rightarrow> Inr (Fin x) | _ \<Rightarrow> Inl OverflowError)"

text \<open>
  \<^verbatim>\<open>round(x)\<close> of a float is the nearest integer, a tie going to the even one;
  \<^verbatim>\<open>int(x)\<close> cuts the fraction off. Both raise on an infinity and on a NaN.
\<close>

definition py_round :: "pyfloat \<Rightarrow> exn + int" where
  "py_round x = (case x of Fin a \<Rightarrow> Inr (round_half_even a)
                 | Inf s \<Rightarrow> Inl OverflowError | NaN \<Rightarrow> Inl ValueError)"

definition py_trunc :: "rat \<Rightarrow> int" where
  "py_trunc a = (if 0 \<le> a then \<lfloor>a\<rfloor> else \<lceil>a\<rceil>)"

definition int_of_float :: "pyfloat \<Rightarrow> exn + int" where
  "int_of_float x = (case x of Fin a \<Rightarrow> Inr (py_trunc a)
                     | Inf s \<Rightarrow> Inl OverflowError | NaN \<Rightarrow> Inl ValueError)"

text \<open>
  \<^verbatim>\<open>float(s)\<close> of a string, with the underscores and blanks described above: an
  optional sign and then \<^verbatim>\<open>inf\<close>, \<^verbatim>\<open>infinity\<close> or \<^verbatim>\<open>nan\<close> in any case of letters, or
  decimal digits with an optional point (at least one digit in all) and an optional
  exponent (\<^verbatim>\<open>e\<close> or \<^verbatim>\<open>E\<close>, an optional sign, digits). The number is read exactly and
  rounded once; a number too large gives an infinity. Anything else is a ValueError.
\<close>

definition decimal_value :: "string \<Rightarrow> rat option" where
  "decimal_value s =
     (let ip = takeWhile (\<lambda>c. c \<noteq> CHR ''.'') s;
          rest = dropWhile (\<lambda>c. c \<noteq> CHR ''.'') s;
          fp = (if rest = [] then [] else tl rest)
      in if list_all is_digit ip \<and> list_all is_digit fp \<and> (ip \<noteq> [] \<or> fp \<noteq> [])
         then Some (of_nat (nat_of_digits ip) + of_nat (nat_of_digits fp) / 10 ^ length fp)
         else None)"

definition exponent_value :: "string \<Rightarrow> int option" where
  "exponent_value s =
     (let neg = (s \<noteq> [] \<and> hd s = CHR ''-'');
          ds = (if s \<noteq> [] \<and> (hd s = CHR ''-'' \<or> hd s = CHR ''+'') then tl s else s)
      in if ds \<noteq> [] \<and> list_all is_digit ds
         then Some (if neg then - int (nat_of_digits ds) else int (nat_of_digits ds))
         else None)"

definition float_of_str :: "string \<Rightarrow> exn + pyfloat" where
  "float_of_str s =
     (case number_text is_space s of
        None \<Rightarrow> Inl ValueError
      | Some t \<Rightarrow>
          (let neg = (t \<noteq> [] \<and> hd t = CHR ''-'');
               body = (if t \<noteq> [] \<and> (hd t = CHR ''-'' \<or> hd t = CHR ''+'') then tl t else t);
               low = ascii_lower body;
               mant = takeWhile (\<lambda>c. c \<noteq> CHR ''e'' \<and> c \<noteq> CHR ''E'') body;
               rest = dropWhile (\<lambda>c. c \<noteq> CHR ''e'' \<and> c \<noteq> CHR ''E'') body
           in if low = ''inf'' \<or> low = ''infinity'' then Inr (Inf neg)
              else if low = ''nan'' then Inr NaN
              else (case decimal_value mant of
                 None \<Rightarrow> Inl ValueError
               | Some v \<Rightarrow>
                   if rest = [] then Inr (round_double (if neg then - v else v))
                   else (case exponent_value (tl rest) of
                      None \<Rightarrow> Inl ValueError
                    | Some ex \<Rightarrow>
                        Inr (round_double (if neg then - (v * 10 powi ex) else v * 10 powi ex))))))"

text \<open>
  \<^verbatim>\<open>f'{x:.1f}'\<close>: the decimal text with one digit after the point, nearest to the exact
  value of the double, a tie going to the even digit.
\<close>

definition format_1f :: "pyfloat \<Rightarrow> string" where
  "format_1f x =
     (case x of
        Fin a \<Rightarrow>
          (let t = nat (round_half_even (\<bar>a\<bar> * 10))
           in (if a < 0 then ''-'' else []) @ str_of_nat (t div 10) @ ''.''
              @ [digit_char (t mod 10)])
      | Inf s \<Rightarrow> (if s then ''-inf'' else ''inf'')
      | NaN \<Rightarrow> ''nan'')"

text \<open>\<^verbatim>\<open>s.replace('.0', '')\<close>\<close>

fun remove_dot0 :: "string \<Rightarrow> string" where
  "remove_dot0 (a # b # cs) =
     (if a = CHR ''.'' \<and> b = CHR ''0'' then remove_dot0 cs else a # remove_dot0 (b # cs))"
| "remove_dot0 cs = cs"

record v4l2_fract =
  numerator :: "32 word"
  denominator :: "32 word"

text \<open>
  \<^verbatim>\<open>def dn2str(dn):
    return f'{(dn.denominator/dn.numerator):.1f}'.replace('.0', '')\<close>
\<close>

definition dn2str :: "v4l2_fract \<Rightarrow> exn + string" where
  "dn2str dn =
     (case int_truediv (uint (denominator dn)) (uint (numerator dn)) of
        Inl e \<Rightarrow> Inl e
      | Inr q \<Rightarrow> Inr (remove_dot0 (format_1f q)))"


section \<open>Controls\<close>

text \<open>
  The values a control field or a batch entry holds: \<^verbatim>\<open>None\<close>, an \<^verbatim>\<open>int\<close>, a \<^verbatim>\<open>str\<close> or a
  \<^verbatim>\<open>bytes\<close> object.
\<close>

datatype pyval = VNone | VInt int | VStr string | VBytes bytes

text \<open>\<^verbatim>\<open>class BaseCtrlMenu\<close> and \<^verbatim>\<open>class BaseCtrl\<close>, with the fields the backends read.\<close>

record BaseCtrlMenu =
  menu_text_id :: string
  menu_name :: string
  menu_value :: pyval

record BaseCtrl =
  text_id :: string
  name :: string
  ctrl_type :: string
  ctrl_value :: pyval
  ctrl_default :: pyval
  ctrl_min :: pyval
  ctrl_max :: pyval
  ctrl_step :: pyval
  inactive :: bool
  readonly :: bool
  reopener :: bool
  menu :: "BaseCtrlMenu list"
  zeroer :: bool

text \<open>
  A backend keeps its controls in a list and mutates them in place; other fields of the
  backend and the lists handed to callers refer to the same objects. A reference to a
  control is therefore its index in the backend's list.

  \<^verbatim>\<open>def find_idx(ctrls, pred):
    for i, c in enumerate(ctrls):
        if pred(c):
            return i
    return None\<close>
  \<^verbatim>\<open>def find_by_text_id(ctrls, text_id):
    for c in ctrls:
        if c.text_id == text_id:
            return c
    return None\<close>
\<close>

fun find_idx_from :: "nat \<Rightarrow> ('a \<Rightarrow> bool) \<Rightarrow> 'a list \<Rightarrow> nat option" where
  "find_idx_from i pred [] = None"
| "find_idx_from i pred (c # ctrls) = (if pred c then Some i else find_idx_from (Suc i) pred ctrls)"

definition find_idx :: "'a list \<Rightarrow> ('a \<Rightarrow> bool) \<Rightarrow> nat option" where
  "find_idx ctrls pred = find_idx_from 0 pred ctrls"

definition find_by_text_id :: "('a BaseCtrl_scheme) list \<Rightarrow> string \<Rightarrow> nat option" where
  "find_by_text_id ctrls k = find_idx ctrls (\<lambda>c. text_id c = k)"

text \<open>The same search in a menu, for a batch value; and \<^verbatim>\<open>find_by_value\<close>.\<close>

definition find_menu_by_text_id :: "BaseCtrlMenu list \<Rightarrow> pyval \<Rightarrow> BaseCtrlMenu option" where
  "find_menu_by_text_id ms v = find (\<lambda>m. VStr (menu_text_id m) = v) ms"

definition find_by_value :: "BaseCtrlMenu list \<Rightarrow> pyval \<Rightarrow> BaseCtrlMenu option" where
  "find_by_value ms v = find (\<lambda>m. menu_value m = v) ms"

text \<open>
  A warning is a message appended to the list \<open>errs\<close> by \<^verbatim>\<open>collect_warning\<close>. The model
  keeps, for each message, where it comes from and the values formatted into it.
\<close>

datatype warning =
    V4L2Ctrls_cant_find pyval "string list"
  | V4L2Ctrls_unsupported_type string pyval string
  | V4L2Ctrls_cant_set_using string pyval int
  | V4L2Ctrls_cant_set string pyval
  | V4L2Ctrls_cant_find_value int "pyval list"
  | V4L2FmtCtrls_info_type string
  | V4L2FmtCtrls_cant_find pyval "string list"
  | V4L2FmtCtrls_cant_get_fmt
  | V4L2FmtCtrls_cant_set_fmt
  | V4L2FmtCtrls_cant_set_pixelformat string string
  | V4L2FmtCtrls_cant_set_resolution string string
  | V4L2FmtCtrls_cant_set_fps
  | V4L2FmtCtrls_invalid_frame_rate string
  | V4L2FmtCtrls_cant_set_fps_using string pyfloat
  | AnkerWorkCtrls_cant_find pyval "string list"
  | AnkerWorkCtrls_unsupported_type string pyval string
  | AnkerWorkCtrls_failed_to_set string pyval pyval
  | CameraCtrls_cant_find "string set"
  | Other_warning string

definition collect_warning :: "warning \<Rightarrow> warning list \<Rightarrow> warning list" where
  "collect_warning w ws = ws @ [w]"

section \<open>The device\<close>

text \<open>
  The open device is a state \<open>dev\<close>, whose type the driver chooses, and the list of the
  write requests it has received so far. A driver answers an ioctl from the state: a
  query returns the structure it filled in, or \<open>None\<close> when the call raises; a write also
  returns the next state.
\<close>

record v4l2_pix_format =
  pix_width :: "32 word"
  pix_height :: "32 word"
  pix_pixelformat :: "32 word"

datatype ioctl_write =
    S_FMT v4l2_pix_format
  | S_PARM v4l2_fract
  | S_CTRL "32 word" "32 word"
  | XU_SET_CUR int int bytes

record 'd fd =
  dev :: 'd
  writes :: "ioctl_write list"

record 'd fmt_driver =
  VIDIOC_G_FMT :: "'d \<Rightarrow> v4l2_pix_format option"
  VIDIOC_S_FMT :: "'d \<Rightarrow> v4l2_pix_format \<Rightarrow> v4l2_pix_format option \<times> 'd"
  VIDIOC_G_PARM :: "'d \<Rightarrow> v4l2_fract option"
  VIDIOC_S_PARM :: "'d \<Rightarrow> v4l2_fract \<Rightarrow> v4l2_fract option \<times> 'd"

definition ioctl_S_FMT ::
  "'d fmt_driver \<Rightarrow> 'd fd \<Rightarrow> v4l2_pix_format \<Rightarrow> v4l2_pix_format option \<times> 'd fd" where
  "ioctl_S_FMT drv fd fmt =
     (let (r, d) = VIDIOC_S_FMT drv (dev fd) fmt
      in (r, \<lparr> dev = d, writes = writes fd @ [S_FMT fmt] \<rparr>))"

definition ioctl_S_PARM ::
  "'d fmt_driver \<Rightarrow> 'd fd \<Rightarrow> v4l2_fract \<Rightarrow> v4l2_fract option \<times> 'd fd" where
  "ioctl_S_PARM drv fd parm =
     (let (r, d) = VIDIOC_S_PARM drv (dev fd) parm
      in (r, \<lparr> dev = d, writes = writes fd @ [S_PARM parm] \<rparr>))"

section \<open>The format backend\<close>

text \<open>
  \<^verbatim>\<open>class V4L2FmtCtrls\<close>: the list \<open>ctrls\<close>, and the references \<open>pxf_ctrl\<close>, \<open>res_ctrl\<close> and
  \<open>fps_ctrl\<close> into it (\<open>None\<close> as in the source).
\<close>

record V4L2FmtCtrls =
  ctrls :: "BaseCtrl list"
  pxf_ctrl :: "nat option"
  res_ctrl :: "nat option"
  fps_ctrl :: "nat option"

text \<open>
  \<^verbatim>\<open>def get_fmt(self):
    fmt = v4l2_format()
    fmt.type = V4L2_BUF_TYPE_VIDEO_CAPTURE
    try:
        ioctl(self.fd, VIDIOC_G_FMT, fmt)
    except Exception as e:
        logging.warning(...)
        return None
    return fmt\<close>
\<close>

definition get_fmt :: "'d fmt_driver \<Rightarrow> 'd fd \<Rightarrow> v4l2_pix_format option" where
  "get_fmt drv fd = VIDIOC_G_FMT drv (dev fd)"

text \<open>
  \<^verbatim>\<open>def get_fps(self):
    parm = v4l2_streamparm()
    parm.type = V4L2_BUF_TYPE_VIDEO_CAPTURE
    try:
        ioctl(self.fd, VIDIOC_G_PARM, parm)
    except Exception as e:
        logging.warning(...)
        return 0
    tf = parm.parm.capture.timeperframe
    if tf.numerator == 0 or tf.denominator == 0:
        logging.warning(...)
        return 0
    return dn2str(parm.parm.capture.timeperframe)\<close>
\<close>

definition get_fps :: "'d fmt_driver \<Rightarrow> 'd fd \<Rightarrow> exn + pyval" where
  "get_fps drv fd =
     (case VIDIOC_G_PARM drv (dev fd) of
        None \<Rightarrow> Inr (VInt 0)
      | Some tf \<Rightarrow>
          if numerator tf = 0 \<or> denominator tf = 0 then Inr (VInt 0)
          else (case dn2str tf of Inl e \<Rightarrow> Inl e | Inr s \<Rightarrow> Inr (VStr s)))"

text \<open>
  \<^verbatim>\<open>def set_fps(self, ctrl, fps, errs):
    if fps == self.get_fps():
        return
    parm = v4l2_streamparm()
    parm.type = V4L2_BUF_TYPE_VIDEO_CAPTURE
    parm.parm.capture.timeperframe.numerator = 10
    parm.parm.capture.timeperframe.denominator = int(float(fps)*10)
    try:
        ioctl(self.fd, VIDIOC_S_PARM, parm)
    except Exception as e:
        collect_warning(f'V4L2FmtCtrls: Can\'t set fps: {e}', errs)
        return
    tf = parm.parm.capture.timeperframe
    if tf.denominator == 0 or tf.numerator == 0:
        collect_warning(f'V4L2FmtCtrls: VIDIOC_S_PARM: Invalid frame rate {fps}', errs)
        return
    if float(fps) != (tf.denominator / tf.numerator):
        collect_warning(f'V4L2FmtCtrls: Can\'t set fps to {fps} using {tf.denominator / tf.numerator}', errs)
        return
    ctrl.value = fps\<close>
  The control is the one at index \<open>ctrl\<close> of the list; \<open>fps\<close> is a string, as every
  value is that \<open>setup_ctrls\<close> found in the menu. The fields of \<^verbatim>\<open>v4l2_fract\<close> are
  \<^verbatim>\<open>c_uint32\<close>: storing an integer keeps its low 32 bits. Multiplying a float by the
  integer 10 multiplies it by the double 10.
\<close>

definition set_fps ::
  "'d fmt_driver \<Rightarrow> 'd fd \<Rightarrow> BaseCtrl list \<Rightarrow> nat \<Rightarrow> string \<Rightarrow> warning list
    \<Rightarrow> exn + (BaseCtrl list \<times> warning list \<times> 'd fd)" where
  "set_fps drv fd cs ctrl fps errs =
     (case get_fps drv fd of
        Inl e \<Rightarrow> Inl e
      | Inr cur \<Rightarrow>
          if VStr fps = cur then Inr (cs, errs, fd)
          else (case float_of_str fps of
            Inl e \<Rightarrow> Inl e
          | Inr f \<Rightarrow>
              (case int_of_float (float_mul f (Fin 10)) of
                 Inl e \<Rightarrow> Inl e
               | Inr den \<Rightarrow>
                   (let parm = \<lparr> numerator = 10, denominator = word_of_int den \<rparr>
                    in case ioctl_S_PARM drv fd parm of
                         (None, fd') \<Rightarrow> Inr (cs, collect_warning V4L2FmtCtrls_cant_set_fps errs, fd')
                       | (Some tf, fd') \<Rightarrow>
                           if denominator tf = 0 \<or> numerator tf = 0
                           then Inr (cs, collect_warning (V4L2FmtCtrls_invalid_frame_rate fps) errs,
                                     fd')
                           else (case int_truediv (uint (denominator tf)) (uint (numerator tf)) of
                              Inl e \<Rightarrow> Inl e
                            | Inr q \<Rightarrow>
                                if f \<noteq> q
                                then Inr (cs, collect_warning
                                            (V4L2FmtCtrls_cant_set_fps_using fps q) errs, fd')
                                else Inr (cs[ctrl := (cs ! ctrl)\<lparr> ctrl_value := VStr fps \<rparr>],
                                          errs, fd'))))))"

text \<open>
  \<^verbatim>\<open>def set_pixelformat(self, ctrl, pixelformat, errs):
    fmt = v4l2_format()
    fmt.type = V4L2_BUF_TYPE_VIDEO_CAPTURE
    try:
        ioctl(self.fd, VIDIOC_G_FMT, fmt)
    except Exception as e:
        collect_warning(f'V4L2FmtCtrls: Can\'t get fmt {e}', errs)
        return
    if pixelformat == pxf2str(fmt.fmt.pix.pixelformat):
        return
    fmt.fmt.pix.pixelformat = str2pxf(pixelformat)
    try:
        ioctl(self.fd, VIDIOC_S_FMT, fmt)
    except Exception as e:
        collect_warning(f'V4L2FmtCtrls: Can\'t set fmt {e}', errs)
        return
    if pxf2str(fmt.fmt.pix.pixelformat) != pixelformat:
        collect_warning(...)
        return
    ctrl.value = pixelformat\<close>
\<close>

definition set_pixelformat ::
  "'d fmt_driver \<Rightarrow> 'd fd \<Rightarrow> BaseCtrl list \<Rightarrow> nat \<Rightarrow> string \<Rightarrow> warning list
    \<Rightarrow> exn + (BaseCtrl list \<times> warning list \<times> 'd fd)" where
  "set_pixelformat drv fd cs ctrl pixelformat errs =
     (case VIDIOC_G_FMT drv (dev fd) of
        None \<Rightarrow> Inr (cs, collect_warning V4L2FmtCtrls_cant_get_fmt errs, fd)
      | Some fmt \<Rightarrow>
          if pixelformat = pxf2str (uint (pix_pixelformat fmt)) then Inr (cs, errs, fd)
          else (case str2pxf pixelformat of
            Inl e \<Rightarrow> Inl e
          | Inr p \<Rightarrow>
              (case ioctl_S_FMT drv fd (fmt\<lparr> pix_pixelformat := word_of_int p \<rparr>) of
                 (None, fd') \<Rightarrow> Inr (cs, collect_warning V4L2FmtCtrls_cant_set_fmt errs, fd')
               | (Some fmt', fd') \<Rightarrow>
                   if pxf2str (uint (pix_pixelformat fmt')) \<noteq> pixelformat
                   then Inr (cs, collect_warning
                               (V4L2FmtCtrls_cant_set_pixelformat pixelformat
                                  (pxf2str (uint (pix_pixelformat fmt')))) errs, fd')
                   else Inr (cs[ctrl := (cs ! ctrl)\<lparr> ctrl_value := VStr pixelformat \<rparr>],
                             errs, fd'))))"

text \<open>
  \<^verbatim>\<open>def str2wh(str, wh):
    split = str.split('x')
    wh.width = int(split[0])
    wh.height = int(split[1])\<close>
\<close>

definition str2wh :: "string \<Rightarrow> v4l2_pix_format \<Rightarrow> exn + v4l2_pix_format" where
  "str2wh str wh =
     (let split = split_on CHR ''x'' str
      in case int_of_str (split ! 0) of
           Inl e \<Rightarrow> Inl e
         | Inr w \<Rightarrow>
             if length split < 2 then Inl IndexError
             else (case int_of_str (split ! 1) of
                     Inl e \<Rightarrow> Inl e
                   | Inr h \<Rightarrow> Inr (wh\<lparr> pix_width := word_of_int w,
                                          pix_height := word_of_int h \<rparr>)))"

text \<open>
  \<^verbatim>\<open>def set_resolution(self, ctrl, resolution, errs):\<close> as \<^verbatim>\<open>set_pixelformat\<close>, with
  \<^verbatim>\<open>wh2str(fmt.fmt.pix)\<close> compared and \<^verbatim>\<open>str2wh(resolution, fmt.fmt.pix)\<close> stored.
\<close>

definition set_resolution ::
  "'d fmt_driver \<Rightarrow> 'd fd \<Rightarrow> BaseCtrl list \<Rightarrow> nat \<Rightarrow> string \<Rightarrow> warning list
    \<Rightarrow> exn + (BaseCtrl list \<times> warning list \<times> 'd fd)" where
  "set_resolution drv fd cs ctrl resolution errs =
     (case VIDIOC_G_FMT drv (dev fd) of
        None \<Rightarrow> Inr (cs, collect_warning V4L2FmtCtrls_cant_get_fmt errs, fd)
      | Some fmt \<Rightarrow>
          if wh2str (pix_width fmt, pix_height fmt) = resolution then Inr (cs, errs, fd)
          else (case str2wh resolution fmt of
            Inl e \<Rightarrow> Inl e
          | Inr fmt1 \<Rightarrow>
              (case ioctl_S_FMT drv fd fmt1 of
                 (None, fd') \<Rightarrow> Inr (cs, collect_warning V4L2FmtCtrls_cant_set_fmt errs, fd')
               | (Some fmt', fd') \<Rightarrow>
                   if wh2str (pix_width fmt', pix_height fmt') \<noteq> resolution
                   then Inr (cs, collect_warning
                               (V4L2FmtCtrls_cant_set_resolution resolution
                                  (wh2str (pix_width fmt', pix_height fmt'))) errs, fd')
                   else Inr (cs[ctrl := (cs ! ctrl)\<lparr> ctrl_value := VStr resolution \<rparr>],
                             errs, fd'))))"

text \<open>
  A batch is a \<^verbatim>\<open>dict\<close>: its items in insertion order. A loop over the items runs its
  body on each, and an exception from the body leaves the loop.
\<close>

type_synonym params = "(string \<times> pyval) list"

fun for_items :: "('e \<Rightarrow> 's \<Rightarrow> exn + 's) \<Rightarrow> 'e list \<Rightarrow> 's \<Rightarrow> exn + 's" where
  "for_items body [] st = Inr st"
| "for_items body (kv # items) st =
     (case body kv st of Inl e \<Rightarrow> Inl e | Inr st' \<Rightarrow> for_items body items st')"

text \<open>
  \<^verbatim>\<open>def setup_ctrls(self, params, errs):
    for k, v in params.items():
        ctrl = find_by_text_id(self.ctrls, k)
        if ctrl is None:
            continue
        if ctrl.type == 'info':
            collect_warning(f'V4L2FmtCtrls: info type {k} couldn\'t be set', errs)
            continue
        menu = find_by_text_id(ctrl.menu, v)
        if menu is None:
            collect_warning(f'V4L2FmtCtrls: Can\'t find {v} in {[c.text_id for c in ctrl.menu]}', errs)
            continue
        if ctrl.text_id == 'pixelformat':
            self.set_pixelformat(ctrl, v, errs)
        elif ctrl.text_id == 'resolution':
            self.set_resolution(ctrl, v, errs)
        elif ctrl.text_id == 'fps':
            self.set_fps(ctrl, v, errs)\<close>
  A value found in the menu equals the text id of an entry, so it is a string.
\<close>

definition V4L2FmtCtrls_setup_ctrl ::
  "'d fmt_driver \<Rightarrow> string \<times> pyval \<Rightarrow> BaseCtrl list \<times> warning list \<times> 'd fd
    \<Rightarrow> exn + (BaseCtrl list \<times> warning list \<times> 'd fd)" where
  "V4L2FmtCtrls_setup_ctrl drv kv st =
     (let (k, v) = kv; (cs, errs, fd) = st
      in case find_by_text_id cs k of
           None \<Rightarrow> Inr st
         | Some ctrl \<Rightarrow>
             if ctrl_type (cs ! ctrl) = ''info''
             then Inr (cs, collect_warning (V4L2FmtCtrls_info_type k) errs, fd)
             else (case find_menu_by_text_id (menu (cs ! ctrl)) v of
                None \<Rightarrow>
                  Inr (cs, collect_warning
                         (V4L2FmtCtrls_cant_find v (map menu_text_id (menu (cs ! ctrl)))) errs, fd)
              | Some m \<Rightarrow>
                  (case v of
                     VStr s \<Rightarrow>
                       if text_id (cs ! ctrl) = ''pixelformat''
                       then set_pixelformat drv fd cs ctrl s errs
                       else if text_id (cs ! ctrl) = ''resolution''
                       then set_resolution drv fd cs ctrl s errs
                       else if text_id (cs ! ctrl) = ''fps''
                       then set_fps drv fd cs ctrl s errs
                       else Inr st
                   | _ \<Rightarrow> Inr st)))"

definition V4L2FmtCtrls_setup_ctrls ::
  "'d fmt_driver \<Rightarrow> params \<Rightarrow> BaseCtrl list \<times> warning list \<times> 'd fd
    \<Rightarrow> exn + (BaseCtrl list \<times> warning list \<times> 'd fd)" where
  "V4L2FmtCtrls_setup_ctrls drv params st = for_items (V4L2FmtCtrls_setup_ctrl drv) params st"



section \<open>The listener\<close>

text \<open>
  \<^verbatim>\<open>def update_ctrl(self, ctrl, value, updates):
    if ctrl is not None and ctrl.value != value:
        ctrl.value = value
        updates.append(ctrl)\<close>
\<close>

definition update_ctrl ::
  "nat option \<Rightarrow> pyval \<Rightarrow> BaseCtrl list \<times> nat list \<Rightarrow> BaseCtrl list \<times> nat list" where
  "update_ctrl ctrl v st =
     (let (cs, updates) = st
      in case ctrl of
           None \<Rightarrow> st
         | Some i \<Rightarrow>
             if ctrl_value (cs ! i) \<noteq> v
             then (cs[i := (cs ! i)\<lparr> ctrl_value := v \<rparr>], updates @ [i])
             else st)"

text \<open>
  \<^verbatim>\<open>def query_fmt_changes(self):
    updates = []
    fmt = self.fmt_ctrls.get_fmt()
    if fmt is not None:
        self.update_ctrl(self.fmt_ctrls.pxf_ctrl, pxf2str(fmt.fmt.pix.pixelformat), updates)
        self.update_ctrl(self.fmt_ctrls.res_ctrl, wh2str(fmt.fmt.pix), updates)
    self.update_ctrl(self.fmt_ctrls.fps_ctrl, self.fmt_ctrls.get_fps(), updates)
    # these are reopener controls, use only the first to avoid multiple reopenings
    if len(updates):
        ctrl = updates[0]
        logging.info(...)
        self.cb(ctrl)\<close>
  The last argument is the list of the controls the callback \<^verbatim>\<open>self.cb\<close> has been called
  with; a call appends the control as it is then. The thread's \<^verbatim>\<open>run\<close> calls this
  function when \<^verbatim>\<open>self.epoll.poll(1)\<close> returned no event and the poller is not closed.
\<close>

definition query_fmt_changes ::
  "'d fmt_driver \<Rightarrow> 'd fd \<Rightarrow> V4L2FmtCtrls \<Rightarrow> BaseCtrl list
    \<Rightarrow> exn + (V4L2FmtCtrls \<times> BaseCtrl list)" where
  "query_fmt_changes drv fd fmt_ctrls cb =
     (let st = (ctrls fmt_ctrls, []);
          st = (case get_fmt drv fd of
                  None \<Rightarrow> st
                | Some fmt \<Rightarrow>
                    update_ctrl (res_ctrl fmt_ctrls)
                      (VStr (wh2str (pix_width fmt, pix_height fmt)))
                      (update_ctrl (pxf_ctrl fmt_ctrls)
                         (VStr (pxf2str (uint (pix_pixelformat fmt)))) st))
      in case get_fps drv fd of
           Inl e \<Rightarrow> Inl e
         | Inr fps \<Rightarrow>
             (let (cs, updates) = update_ctrl (fps_ctrl fmt_ctrls) fps st
              in Inr (fmt_ctrls\<lparr> ctrls := cs \<rparr>,
                      if updates \<noteq> [] then cb @ [cs ! hd updates] else cb)))"

text \<open>
  What a poll cycle compares: each cached control of the three that exists, with the
  value the device reports now, in the order pixel format, resolution, frame rate (the
  first two only when the format query succeeds). \<open>differing\<close> keeps those whose
  cached value is another one.
\<close>

definition opt_list :: "'a option \<Rightarrow> 'a list" where
  "opt_list x = (case x of None \<Rightarrow> [] | Some y \<Rightarrow> [y])"

definition live_values :: "'d fmt_driver \<Rightarrow> 'd fd \<Rightarrow> V4L2FmtCtrls \<Rightarrow> (nat \<times> pyval) list" where
  "live_values drv fd fmt_ctrls =
     (case get_fmt drv fd of
        None \<Rightarrow> []
      | Some fmt \<Rightarrow>
          map (\<lambda>i. (i, VStr (pxf2str (uint (pix_pixelformat fmt))))) (opt_list (pxf_ctrl fmt_ctrls))
          @ map (\<lambda>i. (i, VStr (wh2str (pix_width fmt, pix_height fmt))))
              (opt_list (res_ctrl fmt_ctrls)))
     @ (case get_fps drv fd of
          Inl e \<Rightarrow> []
        | Inr v \<Rightarrow> map (\<lambda>i. (i, v)) (opt_list (fps_ctrl fmt_ctrls)))"

definition differing :: "'d fmt_driver \<Rightarrow> 'd fd \<Rightarrow> V4L2FmtCtrls \<Rightarrow> (nat \<times> pyval) list" where
  "differing drv fd fmt_ctrls =
     filter (\<lambda>iv. ctrl_value (ctrls fmt_ctrls ! fst iv) \<noteq> snd iv) (live_values drv fd fmt_ctrls)"

text \<open>One comparison of a poll cycle, on a control that exists.\<close>

definition update_step :: "BaseCtrl list \<times> nat list \<Rightarrow> nat \<times> pyval \<Rightarrow> BaseCtrl list \<times> nat list" where
  "update_step st iv = update_ctrl (Some (fst iv)) (snd iv) st"

text \<open>The three references point to different controls of the list.\<close>

definition fmt_refs_ok :: "V4L2FmtCtrls \<Rightarrow> bool" where
  "fmt_refs_ok fmt_ctrls \<longleftrightarrow>
     (let refs = opt_list (pxf_ctrl fmt_ctrls) @ opt_list (res_ctrl fmt_ctrls)
                 @ opt_list (fps_ctrl fmt_ctrls)
      in distinct refs \<and> list_all (\<lambda>i. i < length (ctrls fmt_ctrls)) refs)"

text \<open>
  A device for the examples: its state is the current time per frame; it takes every
  frame interval it is given.
\<close>

definition example_fmt_driver :: "v4l2_fract fmt_driver" where
  "example_fmt_driver =
     \<lparr> VIDIOC_G_FMT = (\<lambda>d. Some \<lparr> pix_width = 640, pix_height = 480,
                                      pix_pixelformat = 1448695129 \<rparr>),
       VIDIOC_S_FMT = (\<lambda>d fmt. (Some fmt, d)),
       VIDIOC_G_PARM = (\<lambda>d. Some d),
       VIDIOC_S_PARM = (\<lambda>d parm. (Some parm, parm)) \<rparr>"

definition example_fps_ctrl :: BaseCtrl where
  "example_fps_ctrl =
     \<lparr> text_id = ''fps'', name = ''FPS'', ctrl_type = ''menu'', ctrl_value = VStr ''15'',
       ctrl_default = VNone, ctrl_min = VNone, ctrl_max = VNone, ctrl_step = VNone,
       inactive = False, readonly = False, reopener = True,
       menu = [\<lparr> menu_text_id = ''30'', menu_name = ''30'', menu_value = VNone \<rparr>,
               \<lparr> menu_text_id = ''15'', menu_name = ''15'', menu_value = VNone \<rparr>],
       zeroer = False \<rparr>"

definition example_fd :: "v4l2_fract fd" where
  "example_fd = \<lparr> dev = \<lparr> numerator = 1, denominator = 15 \<rparr>, writes = [] \<rparr>"



text \<open>
  Cached controls for the examples: the cache holds \<open>MJPG\<close>, \<open>1280x720\<close> and 15 frames
  per second, and the example device reports \<open>YUYV\<close>, \<open>640x480\<close> and 15.
\<close>

definition example_menu_ctrl :: "string \<Rightarrow> string \<Rightarrow> string \<Rightarrow> BaseCtrl" where
  "example_menu_ctrl tid nm v =
     \<lparr> text_id = tid, name = nm, ctrl_type = ''menu'', ctrl_value = VStr v,
       ctrl_default = VNone, ctrl_min = VNone, ctrl_max = VNone, ctrl_step = VNone,
       inactive = False, readonly = False, reopener = True,
       menu = [\<lparr> menu_text_id = v, menu_name = v, menu_value = VNone \<rparr>],
       zeroer = False \<rparr>"

definition example_fmt_ctrls :: V4L2FmtCtrls where
  "example_fmt_ctrls =
     \<lparr> ctrls = [example_menu_ctrl ''pixelformat'' ''Pixel format'' ''MJPG'',
                example_menu_ctrl ''resolution'' ''Resolution'' ''1280x720'',
                example_fps_ctrl],
       pxf_ctrl = Some 0, res_ctrl = Some 1, fps_ctrl = Some 2 \<rparr>"

section \<open>The generic backend\<close>

text \<open>
  \<^verbatim>\<open>class V4L2Ctrl(BaseCtrl)\<close> adds the driver's id of the control. \<^verbatim>\<open>class v4l2_control\<close>
  has the fields \<^verbatim>\<open>id\<close> (\<^verbatim>\<open>c_uint32\<close>) and \<^verbatim>\<open>value\<close> (\<^verbatim>\<open>c_int32\<close>): an \<^verbatim>\<open>int\<close> stored in
  \<^verbatim>\<open>value\<close> keeps its low 32 bits, and reading the field gives them back as a signed
  number.
\<close>

record V4L2Ctrl = BaseCtrl +
  v4l2_id :: "32 word"

record v4l2_queryctrl =
  qc_id :: "32 word"
  qc_type :: "32 word"
  qc_name :: bytes
  qc_minimum :: "32 word"
  qc_maximum :: "32 word"
  qc_step :: "32 word"
  qc_default :: "32 word"
  qc_flags :: "32 word"

record v4l2_querymenu =
  qm_index :: "32 word"
  qm_name :: bytes
  qm_value :: "64 word"

text \<open>
  The control requests of a driver. \<open>VIDIOC_S_CTRL\<close> is given the id and the value and
  answers with the value field as the driver leaves it; the queries answer with the
  structure filled in. \<open>None\<close> is a call that raises.
\<close>

record 'd ctrl_driver =
  VIDIOC_QUERYCTRL :: "'d \<Rightarrow> 32 word \<Rightarrow> v4l2_queryctrl option"
  VIDIOC_G_CTRL :: "'d \<Rightarrow> 32 word \<Rightarrow> 32 word option"
  VIDIOC_S_CTRL :: "'d \<Rightarrow> 32 word \<Rightarrow> 32 word \<Rightarrow> 32 word option \<times> 'd"
  VIDIOC_QUERYMENU :: "'d \<Rightarrow> 32 word \<Rightarrow> 32 word \<Rightarrow> v4l2_querymenu option"

definition ioctl_S_CTRL ::
  "'d ctrl_driver \<Rightarrow> 'd fd \<Rightarrow> 32 word \<Rightarrow> 32 word \<Rightarrow> 32 word option \<times> 'd fd" where
  "ioctl_S_CTRL drv fd cid v =
     (let (r, d) = VIDIOC_S_CTRL drv (dev fd) cid v
      in (r, \<lparr> dev = d, writes = writes fd @ [S_CTRL cid v] \<rparr>))"

text \<open>
  \<^verbatim>\<open>def to_bool(val):
    if type(val) == str:
        val = val.lower()
        if val in ('y', 'yes', 't', 'true', 'on', '1'):
            return True
        return False
    return bool(val)\<close>
  Only the letters A to Z matter to \<^verbatim>\<open>lower\<close> here.
\<close>

definition to_bool :: "pyval \<Rightarrow> bool" where
  "to_bool val =
     (case val of
        VStr s \<Rightarrow> ascii_lower s \<in> set [''y'', ''yes'', ''t'', ''true'', ''on'', ''1'']
      | VInt i \<Rightarrow> i \<noteq> 0
      | VNone \<Rightarrow> False
      | VBytes b \<Rightarrow> b \<noteq> [])"

text \<open>\<^verbatim>\<open>int(v)\<close> of a batch value; a \<^verbatim>\<open>bytes\<close> object is read as its ASCII text.\<close>

definition py_int :: "pyval \<Rightarrow> exn + int" where
  "py_int v =
     (case v of
        VInt i \<Rightarrow> Inr i
      | VStr s \<Rightarrow> int_of_str s
      | VBytes b \<Rightarrow> int_of_bytes b
      | VNone \<Rightarrow> Inl TypeError)"

text \<open>
  \<^verbatim>\<open>str(v).endswith('%')\<close>: the text of \<^verbatim>\<open>None\<close> ends with a letter, that of an \<^verbatim>\<open>int\<close>
  with a digit and that of a \<^verbatim>\<open>bytes\<close> object with a quote, so only a \<^verbatim>\<open>str\<close> can end
  with the percent sign.
\<close>

definition ends_with_percent :: "pyval \<Rightarrow> string option" where
  "ends_with_percent v =
     (case v of
        VStr s \<Rightarrow> if s \<noteq> [] \<and> last s = CHR ''%'' then Some (butlast s) else None
      | _ \<Rightarrow> None)"

text \<open>
  \<^verbatim>\<open>round(ctrl.min+(ctrl.default-ctrl.min)*percent*2)\<close>, for fields that hold \<^verbatim>\<open>int\<close>s:
  the difference is converted to a float and multiplied by \<open>percent\<close>, the product is
  doubled, the minimum is converted and added, and the sum is rounded to an \<^verbatim>\<open>int\<close>.
\<close>

definition percent_target :: "int \<Rightarrow> int \<Rightarrow> pyfloat \<Rightarrow> exn + int" where
  "percent_target mn df percent =
     (case float_of_int (df - mn) of
        Inl e \<Rightarrow> Inl e
      | Inr w \<Rightarrow>
          (case float_of_int mn of
             Inl e \<Rightarrow> Inl e
           | Inr fmn \<Rightarrow> py_round (float_add fmn (float_mul (float_mul w percent) (Fin 2)))))"

text \<open>
  The value to write for a batch entry, \<open>intvalue\<close> in the source: the chain
  \<^verbatim>\<open>if ctrl.type == 'integer':
    if str(v).endswith('%'):
        percent = float(str(v)[:-1])/100
        # use default value as 50%
        intvalue = round(ctrl.min+(ctrl.default-ctrl.min)*percent*2)
        intvalue = min(ctrl.max, intvalue)
        intvalue = max(ctrl.min, intvalue)
    else:
        intvalue = int(v)
elif ctrl.type == 'boolean':
    intvalue = int(to_bool(v))
elif ctrl.type == 'menu':
    menu = find_by_text_id(ctrl.menu, v)
    if menu is None:
        collect_warning(f'V4L2Ctrls: Can\'t find {v} in {[c.text_id for c in ctrl.menu]}', errs)
        continue
    intvalue = menu.value
elif ctrl.type == 'button':
    intvalue = 0
else:
    collect_warning(f'V4L2Ctrls: Can\'t set {k} to {v} (Unsupported control type {ctrl.type})', errs)
    continue\<close>
  The result is the exception the chain raises (nothing catches it here), or the
  warning with which it skips the entry, or the value. Arithmetic and comparison on
  a field that holds no \<^verbatim>\<open>int\<close> raise TypeError.
\<close>

definition intvalue_of :: "V4L2Ctrl \<Rightarrow> string \<Rightarrow> pyval \<Rightarrow> exn + (warning + pyval)" where
  "intvalue_of ctrl k v =
     (if ctrl_type ctrl = ''integer'' then
        (case ends_with_percent v of
           Some nn \<Rightarrow>
             (case float_of_str nn of
                Inl e \<Rightarrow> Inl e
              | Inr f \<Rightarrow>
                  (case float_truediv f (Fin 100) of
                     Inl e \<Rightarrow> Inl e
                   | Inr percent \<Rightarrow>
                       (case (ctrl_min ctrl, ctrl_default ctrl) of
                          (VInt mn, VInt df) \<Rightarrow>
                            (case percent_target mn df percent of
                               Inl e \<Rightarrow> Inl e
                             | Inr r \<Rightarrow>
                                 (case ctrl_max ctrl of
                                    VInt mx \<Rightarrow> Inr (Inr (VInt (max mn (min mx r))))
                                  | _ \<Rightarrow> Inl TypeError))
                        | _ \<Rightarrow> Inl TypeError)))
         | None \<Rightarrow> (case py_int v of Inl e \<Rightarrow> Inl e | Inr n \<Rightarrow> Inr (Inr (VInt n))))
      else if ctrl_type ctrl = ''boolean'' then Inr (Inr (VInt (if to_bool v then 1 else 0)))
      else if ctrl_type ctrl = ''menu'' then
        (case find_menu_by_text_id (menu ctrl) v of
           None \<Rightarrow> Inr (Inl (V4L2Ctrls_cant_find v (map menu_text_id (menu ctrl))))
         | Some m \<Rightarrow> Inr (Inr (menu_value m)))
      else if ctrl_type ctrl = ''button'' then Inr (Inr (VInt 0))
      else Inr (Inl (V4L2Ctrls_unsupported_type k v (ctrl_type ctrl))))"

text \<open>
  \<^verbatim>\<open>def setup_ctrls(self, params, errs):
    for k, v in params.items():
        ctrl = find_by_text_id(self.ctrls, k)
        if ctrl is None:
            continue
        intvalue = 0
        if v == 'default':
            v = ctrl.default
        ... (the chain above)
        try:
            new_ctrl = v4l2_control(ctrl.v4l2_id, intvalue)
            ioctl(self.fd, VIDIOC_S_CTRL, new_ctrl)
            if new_ctrl.value != intvalue:
                collect_warning(f'V4L2Ctrls: Can\'t set {k} to {v} using {new_ctrl.value}', errs)
                continue

            if ctrl.type == 'menu':
                ctrl.value = v
            else:
                ctrl.value = intvalue
        except Exception as e:
            collect_warning(f'V4L2Ctrls: Can\'t set {k} to {v} ({e})', errs)\<close>
  The state is the list of controls, the warnings and the device. A value that is no
  \<^verbatim>\<open>int\<close> makes \<^verbatim>\<open>v4l2_control(...)\<close> raise TypeError inside the \<^verbatim>\<open>try\<close>.
\<close>

definition V4L2Ctrls_setup_ctrl ::
  "'d ctrl_driver \<Rightarrow> string \<times> pyval \<Rightarrow> V4L2Ctrl list \<times> warning list \<times> 'd fd
    \<Rightarrow> exn + (V4L2Ctrl list \<times> warning list \<times> 'd fd)" where
  "V4L2Ctrls_setup_ctrl drv kv st =
     (let (k, v0) = kv; (cs, errs, fd) = st
      in case find_by_text_id cs k of
           None \<Rightarrow> Inr st
         | Some i \<Rightarrow>
             (let ctrl = cs ! i;
                  v = (if v0 = VStr ''default'' then ctrl_default ctrl else v0)
              in case intvalue_of ctrl k v of
                   Inl e \<Rightarrow> Inl e
                 | Inr (Inl w) \<Rightarrow> Inr (cs, collect_warning w errs, fd)
                 | Inr (Inr (VInt intvalue)) \<Rightarrow>
                     (let (r, fd') = ioctl_S_CTRL drv fd (v4l2_id ctrl) (word_of_int intvalue)
                      in case r of
                           None \<Rightarrow> Inr (cs, collect_warning (V4L2Ctrls_cant_set k v) errs, fd')
                         | Some new_value \<Rightarrow>
                             if sint new_value \<noteq> intvalue
                             then Inr (cs, collect_warning
                                         (V4L2Ctrls_cant_set_using k v (sint new_value)) errs, fd')
                             else Inr (cs[i := ctrl\<lparr> ctrl_value :=
                                             (if ctrl_type ctrl = ''menu'' then v
                                              else VInt intvalue) \<rparr>],
                                       errs, fd'))
                 | Inr (Inr _) \<Rightarrow> Inr (cs, collect_warning (V4L2Ctrls_cant_set k v) errs, fd)))"

definition V4L2Ctrls_setup_ctrls ::
  "'d ctrl_driver \<Rightarrow> params \<Rightarrow> V4L2Ctrl list \<times> warning list \<times> 'd fd
    \<Rightarrow> exn + (V4L2Ctrl list \<times> warning list \<times> 'd fd)" where
  "V4L2Ctrls_setup_ctrls drv params st = for_items (V4L2Ctrls_setup_ctrl drv) params st"

text \<open>
  For the examples: a control with minimum 0, default 50 and maximum 255, a driver
  that takes every value, and a driver that stores at most 100.
\<close>

definition example_int_ctrl :: V4L2Ctrl where
  "example_int_ctrl =
     \<lparr> text_id = ''brightness'', name = ''Brightness'', ctrl_type = ''integer'',
       ctrl_value = VInt 10, ctrl_default = VInt 50, ctrl_min = VInt 0, ctrl_max = VInt 255,
       ctrl_step = VInt 1, inactive = False, readonly = False, reopener = False,
       menu = [], zeroer = False, v4l2_id = 9963776 \<rparr>"


definition example_limiting_driver :: "unit ctrl_driver" where
  "example_limiting_driver =
     \<lparr> VIDIOC_QUERYCTRL = (\<lambda>d cid. None),
       VIDIOC_G_CTRL = (\<lambda>d cid. None),
       VIDIOC_S_CTRL = (\<lambda>d cid v. (Some (if 100 <s v then 100 else v), d)),
       VIDIOC_QUERYMENU = (\<lambda>d cid i. None) \<rparr>"

definition example_ctrl_fd :: "unit fd" where
  "example_ctrl_fd = \<lparr> dev = (), writes = [] \<rparr>"


chapter \<open>Properties\<close>

section \<open>Pixel format codes\<close>

lemma and_255_int: "(x::int) AND 255 = take_bit 8 x"
proof -
  have "(255::int) = mask 8"
    by (simp add: mask_eq_exp_minus_1)
  then show ?thesis
    by (simp add: take_bit_eq_mask)
qed

lemma take_bit_8_of_char: "take_bit 8 (of_char c :: int) = of_char c"
  by (simp add: take_bit_eq_mod)

lemma bit_of_char_int: "bit (of_char c :: int) n \<longleftrightarrow> n < 8 \<and> bit (of_char c :: int) n"
  using take_bit_8_of_char [of c] by (metis bit_take_bit_iff)

lemma pxf2str_pack:
  fixes a b c d :: char
  defines "X \<equiv> ((of_char a OR push_bit 8 (of_char b)) OR push_bit 16 (of_char c))
                OR push_bit 24 (of_char d) :: int"
  shows "pxf2str X = [a, b, c, d]"
proof -
  have A: "take_bit 8 X = of_char a"
    unfolding X_def
    by (rule bit_eqI) (auto simp add: bit_simps dest: bit_of_char_int [THEN iffD1])
  have B: "take_bit 8 (drop_bit 8 X) = of_char b"
    unfolding X_def
    by (rule bit_eqI) (auto simp add: bit_simps dest: bit_of_char_int [THEN iffD1])
  have C: "take_bit 8 (drop_bit 16 X) = of_char c"
    unfolding X_def
    by (rule bit_eqI) (auto simp add: bit_simps dest: bit_of_char_int [THEN iffD1])
  have D: "take_bit 8 (drop_bit 24 X) = of_char d"
    unfolding X_def
    by (rule bit_eqI) (auto simp add: bit_simps dest: bit_of_char_int [THEN iffD1])
  show ?thesis
    unfolding pxf2str_def and_255_int by (simp only: A B C D char_of_char)
qed

lemma length_4_cases:
  assumes "length s = 4"
  obtains a b c d where "s = [a, b, c, d]"
proof -
  from assms obtain a s1 where s: "s = a # s1" and l1: "length s1 = 3"
    by (cases s) auto
  from l1 obtain b s2 where s1: "s1 = b # s2" and l2: "length s2 = 2"
    by (cases s1) auto
  from l2 obtain c s3 where s2: "s2 = c # s3" and l3: "length s3 = 1"
    by (cases s2) auto
  from l3 obtain d where s3: "s3 = [d]"
    by (cases s3) auto
  show thesis
    using that [of a b c d] s s1 s2 s3 by simp
qed

text \<open>
  C9. Decoding undoes encoding on four-character codes: for every string \<open>s\<close> of
  exactly four characters (a \<^typ>\<open>char\<close> is a code point below 256), \<open>str2pxf s\<close>
  returns a number \<open>p\<close> and \<open>pxf2str p = s\<close>; and \<open>YUYV\<close> encodes to 1448695129,
  which decodes to \<open>YUYV\<close>.
\<close>

theorem pxf2str_str2pxf:
  "(length s = 4 \<longrightarrow> (\<exists>p. str2pxf s = Inr p \<and> pxf2str p = s))
   \<and> str2pxf ''YUYV'' = Inr 1448695129 \<and> pxf2str 1448695129 = ''YUYV''"
proof (intro conjI impI)
  assume "length s = 4"
  then obtain a b c d where s: "s = [a, b, c, d]"
    by (rule length_4_cases)
  have "str2pxf s = Inr (((of_char a OR push_bit 8 (of_char b)) OR push_bit 16 (of_char c))
                OR push_bit 24 (of_char d))"
    by (simp add: str2pxf_def s)
  then show "\<exists>p. str2pxf s = Inr p \<and> pxf2str p = s"
    using pxf2str_pack [of a b c d] s by simp
next
  show "str2pxf ''YUYV'' = Inr 1448695129"
    by code_simp
next
  show "pxf2str 1448695129 = ''YUYV''"
    by code_simp
qed

theorem pxf2str_str2pxf_witness:
  "length ''MJPG'' = 4 \<and> (\<exists>p. str2pxf ''MJPG'' = Inr p \<and> pxf2str p = ''MJPG'')"
  using pxf2str_str2pxf [of "''MJPG''"] by simp

section \<open>Extension unit discovery\<close>

lemma occurs_at_Nil: "occurs_at sub [] k \<longleftrightarrow> sub = [] \<and> k = 0"
  by (auto simp: occurs_at_def)

lemma occurs_at_0: "occurs_at sub bs 0 \<longleftrightarrow> take (length sub) bs = sub"
proof
  assume "occurs_at sub bs 0"
  then show "take (length sub) bs = sub"
    by (simp add: occurs_at_def)
next
  assume t: "take (length sub) bs = sub"
  then have "length (take (length sub) bs) = length sub"
    by simp
  then have "length sub \<le> length bs"
    by simp
  with t show "occurs_at sub bs 0"
    by (simp add: occurs_at_def)
qed

lemma occurs_at_Suc: "occurs_at sub (b # bs) (Suc k) \<longleftrightarrow> occurs_at sub bs k"
  by (simp add: occurs_at_def)

lemma find_from_none: "(\<And>k. \<not> occurs_at sub bs k) \<Longrightarrow> find_from sub bs i = -1"
proof (induction bs arbitrary: i)
  case Nil
  then show ?case
    using occurs_at_Nil [of sub 0] by auto
next
  case (Cons b bs)
  have "\<not> occurs_at sub (b # bs) 0"
    using Cons.prems by blast
  then have t: "take (length sub) (b # bs) \<noteq> sub"
    by (simp add: occurs_at_0)
  have "\<And>k. \<not> occurs_at sub bs k"
    using Cons.prems [of "Suc k" for k] by (simp add: occurs_at_Suc)
  then have "find_from sub bs (Suc i) = -1"
    by (rule Cons.IH)
  with t show ?case
    by simp
qed

lemma find_from_first: "first_occurrence sub bs k \<Longrightarrow> find_from sub bs i = int (i + k)"
proof (induction bs arbitrary: i k)
  case Nil
  then show ?case
    by (auto simp: first_occurrence_def occurs_at_Nil)
next
  case (Cons b bs)
  show ?case
  proof (cases k)
    case 0
    with Cons.prems have "take (length sub) (b # bs) = sub"
      by (simp add: first_occurrence_def occurs_at_0)
    with 0 show ?thesis
      by simp
  next
    case (Suc k')
    with Cons.prems have "\<not> occurs_at sub (b # bs) 0"
      by (auto simp: first_occurrence_def)
    then have t: "take (length sub) (b # bs) \<noteq> sub"
      by (simp add: occurs_at_0)
    have "occurs_at sub bs k'"
      using Cons.prems Suc by (simp add: first_occurrence_def occurs_at_Suc)
    moreover have "\<forall>j<k'. \<not> occurs_at sub bs j"
    proof (intro allI impI)
      fix j assume "j < k'"
      then have "Suc j < k"
        using Suc by simp
      then have "\<not> occurs_at sub (b # bs) (Suc j)"
        using Cons.prems by (auto simp: first_occurrence_def)
      then show "\<not> occurs_at sub bs j"
        by (simp add: occurs_at_Suc)
    qed
    ultimately have "first_occurrence sub bs k'"
      by (simp add: first_occurrence_def)
    then have "find_from sub bs (Suc i) = int (Suc i + k')"
      by (rule Cons.IH)
    with t Suc show ?thesis
      by simp
  qed
qed

lemma find_unit_id_found:
  assumes "descriptor_source fs device = Some bs" and "first_occurrence guid bs i" and "0 < i"
  shows "find_unit_id_in_sysfs fs device guid = uint (bs ! (i - 1))"
proof -
  have f: "isfile fs (descfile fs device)" and r: "read_rb fs (descfile fs device) = Some bs"
    using assms(1) by (auto simp: descriptor_source_def split: if_splits)
  have "bytes_find bs guid = int i"
    using find_from_first [OF assms(2), of 0] by (simp add: bytes_find_def)
  then show ?thesis
    using f r assms(3) by (simp add: find_unit_id_in_sysfs_def nat_diff_distrib)
qed

lemma find_unit_id_no_match:
  assumes "descriptor_source fs device = Some bs" and "\<And>k. \<not> occurs_at guid bs k"
  shows "find_unit_id_in_sysfs fs device guid = 0"
proof -
  have f: "isfile fs (descfile fs device)" and r: "read_rb fs (descfile fs device) = Some bs"
    using assms(1) by (auto simp: descriptor_source_def split: if_splits)
  have "bytes_find bs guid = -1"
    using find_from_none [of guid bs 0] assms(2) by (simp add: bytes_find_def)
  then show ?thesis
    using f r by (simp add: find_unit_id_in_sysfs_def)
qed

lemma find_unit_id_absent:
  assumes "descriptor_source fs device = None"
  shows "find_unit_id_in_sysfs fs device guid = 0"
  using assms
  by (auto simp: descriptor_source_def find_unit_id_in_sysfs_def split: if_splits)

lemma find_unit_id_without_guid:
  assumes "descriptor_source fs device = None
     \<or> (\<exists>bs. descriptor_source fs device = Some bs \<and> (\<forall>k. \<not> occurs_at guid bs k))"
  shows "find_unit_id_in_sysfs fs device guid = 0"
  using assms find_unit_id_absent find_unit_id_no_match by blast

lemma logitech_unsupported_of_no_unit:
  assumes "\<And>guid. guid \<in> set logitech_guids \<Longrightarrow> find_unit_id_in_sysfs fs device guid = 0"
  shows "\<not> logitech_supported fs device usb_ids try_xu"
proof -
  have "find_unit_id_in_sysfs fs device LOGITECH_PERIPHERAL_GUID = 0"
    "find_unit_id_in_sysfs fs device LOGITECH_USER_HW_CONTROL_V1_GUID = 0"
    "find_unit_id_in_sysfs fs device LOGITECH_MOTOR_CONTROL_V1_GUID = 0"
    "find_unit_id_in_sysfs fs device LOGITECH_BRIO_GUID = 0"
    by (rule assms, simp add: logitech_guids_def)+
  then show ?thesis
    by (simp add: logitech_supported_def logitech_get_device_controls_def)
qed

text \<open>
  C7. When the descriptors file holds a blob in which the GUID first occurs at an index
  \<open>i > 0\<close>, unit id resolution returns the byte at index \<open>i - 1\<close>. When the blob does not
  hold the GUID, whatever else it holds, or the descriptors file is absent or
  unreadable, resolution of this GUID returns 0, and the backend that scans for this
  GUID reports itself unsupported: the Kiyo Pro backend for its GUID, the Dell backend
  for its GUID, the AnkerWork backend for its GUID, and the Logitech backend when none
  of its four GUIDs is there. No exception leaves the function (its result is a plain
  number). A blob made of the byte \<open>0x05\<close> and the AnkerWork GUID resolves to 5.
\<close>

theorem find_unit_id_in_sysfs_spec:
  "(descriptor_source fs device = Some bs \<and> first_occurrence guid bs i \<and> 0 < i
      \<longrightarrow> find_unit_id_in_sysfs fs device guid = uint (bs ! (i - 1)))
   \<and> ((descriptor_source fs device = None
        \<or> (\<exists>bs. descriptor_source fs device = Some bs \<and> (\<forall>k. \<not> occurs_at guid bs k)))
      \<longrightarrow> find_unit_id_in_sysfs fs device guid = 0
          \<and> (guid = UVC_EU1_GUID \<longrightarrow> \<not> kiyo_pro_supported fs device usb_ids)
          \<and> (guid = DELL_ULTRASHARP_GUID \<longrightarrow> \<not> dell_ultrasharp_supported fs device usb_ids)
          \<and> (guid = ANKERWORK_GUID \<longrightarrow> \<not> ankerwork_supported fs device usb_ids))
   \<and> ((descriptor_source fs device = None
        \<or> (\<exists>bs. descriptor_source fs device = Some bs
              \<and> (\<forall>g \<in> set logitech_guids. \<forall>k. \<not> occurs_at g bs k)))
      \<longrightarrow> \<not> logitech_supported fs device usb_ids try_xu)
   \<and> find_unit_id_in_sysfs (example_sysfs (0x05 # ANKERWORK_GUID)) ''/dev/video0''
        ANKERWORK_GUID = 5"
proof (intro conjI impI)
  assume "descriptor_source fs device = Some bs \<and> first_occurrence guid bs i \<and> 0 < i"
  then show "find_unit_id_in_sysfs fs device guid = uint (bs ! (i - 1))"
    using find_unit_id_found by blast
next
  assume a: "descriptor_source fs device = None
        \<or> (\<exists>bs. descriptor_source fs device = Some bs \<and> (\<forall>k. \<not> occurs_at guid bs k))"
  then show z: "find_unit_id_in_sysfs fs device guid = 0"
    by (rule find_unit_id_without_guid)
  {
    assume "guid = UVC_EU1_GUID"
    then show "\<not> kiyo_pro_supported fs device usb_ids"
      using z by (simp add: kiyo_pro_supported_def)
  }
  {
    assume "guid = DELL_ULTRASHARP_GUID"
    then show "\<not> dell_ultrasharp_supported fs device usb_ids"
      using z by (simp add: dell_ultrasharp_supported_def)
  }
  {
    assume "guid = ANKERWORK_GUID"
    then show "\<not> ankerwork_supported fs device usb_ids"
      using z by (simp add: ankerwork_supported_def)
  }
next
  assume a: "descriptor_source fs device = None
        \<or> (\<exists>bs. descriptor_source fs device = Some bs
              \<and> (\<forall>g \<in> set logitech_guids. \<forall>k. \<not> occurs_at g bs k))"
  have "find_unit_id_in_sysfs fs device g = 0" if "g \<in> set logitech_guids" for g
    using a that find_unit_id_absent find_unit_id_no_match by blast
  then show "\<not> logitech_supported fs device usb_ids try_xu"
    by (rule logitech_unsupported_of_no_unit)
next
  show "find_unit_id_in_sysfs (example_sysfs (0x05 # ANKERWORK_GUID)) ''/dev/video0''
        ANKERWORK_GUID = 5"
    by code_simp
qed

theorem find_unit_id_in_sysfs_spec_witness:
  "descriptor_source (example_sysfs (0x05 # ANKERWORK_GUID)) ''/dev/video0''
     = Some (0x05 # ANKERWORK_GUID)
   \<and> first_occurrence ANKERWORK_GUID (0x05 # ANKERWORK_GUID) 1
   \<and> find_unit_id_in_sysfs (example_sysfs (0x05 # ANKERWORK_GUID)) ''/dev/video0''
        ANKERWORK_GUID = 5
   \<and> descriptor_source (example_sysfs (0x03 # DELL_ULTRASHARP_GUID)) ''/dev/video0''
       = Some (0x03 # DELL_ULTRASHARP_GUID)
   \<and> find_unit_id_in_sysfs (example_sysfs (0x03 # DELL_ULTRASHARP_GUID)) ''/dev/video0''
        DELL_ULTRASHARP_GUID = 3
   \<and> find_unit_id_in_sysfs (example_sysfs (0x03 # DELL_ULTRASHARP_GUID)) ''/dev/video0''
        ANKERWORK_GUID = 0
   \<and> \<not> ankerwork_supported (example_sysfs (0x03 # DELL_ULTRASHARP_GUID)) ''/dev/video0''
         ''291a:3367''
   \<and> descriptor_source (example_sysfs [1, 2, 3]) ''/dev/video7'' = None
   \<and> \<not> kiyo_pro_supported (example_sysfs [1, 2, 3]) ''/dev/video7'' ''1532:0e05''
   \<and> \<not> dell_ultrasharp_supported (example_sysfs [1, 2, 3]) ''/dev/video7'' ''413c:c015''
   \<and> \<not> logitech_supported (example_sysfs [1, 2, 3]) ''/dev/video7'' ''046d:085e''
         (\<lambda>unit_id selector. True)"
proof -
  let ?blob = "0x05 # ANKERWORK_GUID"
  let ?dell = "0x03 # DELL_ULTRASHARP_GUID"
  have src: "descriptor_source (example_sysfs ?blob) ''/dev/video0'' = Some ?blob"
    by (simp add: descriptor_source_def example_sysfs_def descfile_def basename_def)
  have occ: "first_occurrence ANKERWORK_GUID ?blob 1"
    by (simp add: first_occurrence_def occurs_at_def ANKERWORK_GUID_def)
  have found: "find_unit_id_in_sysfs (example_sysfs ?blob) ''/dev/video0'' ANKERWORK_GUID
      = uint (?blob ! (1 - 1))"
    using find_unit_id_in_sysfs_spec [of "example_sysfs ?blob" "''/dev/video0''" ?blob
        ANKERWORK_GUID 1] src occ
    by simp
  have src2: "descriptor_source (example_sysfs ?dell) ''/dev/video0'' = Some ?dell"
    by (simp add: descriptor_source_def example_sysfs_def descfile_def basename_def)
  have occ2: "first_occurrence DELL_ULTRASHARP_GUID ?dell 1"
    by (simp add: first_occurrence_def occurs_at_def DELL_ULTRASHARP_GUID_def)
  have found2: "find_unit_id_in_sysfs (example_sysfs ?dell) ''/dev/video0'' DELL_ULTRASHARP_GUID
      = uint (?dell ! (1 - 1))"
    using find_unit_id_in_sysfs_spec [of "example_sysfs ?dell" "''/dev/video0''" ?dell
        DELL_ULTRASHARP_GUID 1] src2 occ2
    by simp
  have none2: "\<not> occurs_at ANKERWORK_GUID ?dell k" for k
  proof (cases k)
    case 0
    then show ?thesis
      by (simp add: occurs_at_def ANKERWORK_GUID_def DELL_ULTRASHARP_GUID_def)
  next
    case (Suc j)
    show ?thesis
    proof (cases j)
      case 0
      then show ?thesis
        using Suc by (simp add: occurs_at_def ANKERWORK_GUID_def DELL_ULTRASHARP_GUID_def)
    next
      case (Suc j')
      then show ?thesis
        using \<open>k = Suc j\<close>
        by (simp add: occurs_at_def ANKERWORK_GUID_def DELL_ULTRASHARP_GUID_def)
    qed
  qed
  have unsup2: "find_unit_id_in_sysfs (example_sysfs ?dell) ''/dev/video0'' ANKERWORK_GUID = 0
      \<and> \<not> ankerwork_supported (example_sysfs ?dell) ''/dev/video0'' ''291a:3367''"
    using find_unit_id_in_sysfs_spec [of "example_sysfs ?dell" "''/dev/video0''" _
        ANKERWORK_GUID _ "''291a:3367''"] src2 none2
    by blast
  have src3: "descriptor_source (example_sysfs [1, 2, 3]) ''/dev/video7'' = None"
    by (simp add: descriptor_source_def example_sysfs_def descfile_def basename_def)
  have unsup3: "\<not> kiyo_pro_supported (example_sysfs [1, 2, 3]) ''/dev/video7'' ''1532:0e05''"
    using find_unit_id_in_sysfs_spec [of "example_sysfs [1, 2, 3]" "''/dev/video7''" _
        UVC_EU1_GUID _ "''1532:0e05''"] src3
    by blast
  have unsup4: "\<not> dell_ultrasharp_supported (example_sysfs [1, 2, 3]) ''/dev/video7''
      ''413c:c015''"
    using find_unit_id_in_sysfs_spec [of "example_sysfs [1, 2, 3]" "''/dev/video7''" _
        DELL_ULTRASHARP_GUID _ "''413c:c015''"] src3
    by blast
  have unsup5: "\<not> logitech_supported (example_sysfs [1, 2, 3]) ''/dev/video7'' ''046d:085e''
         (\<lambda>unit_id selector. True)"
    using find_unit_id_in_sysfs_spec [of "example_sysfs [1, 2, 3]" "''/dev/video7''" _ _ _
        "''046d:085e''" "\<lambda>unit_id selector. True"] src3
    by blast
  show ?thesis
    using src occ found src2 found2 unsup2 src3 unsup3 unsup4 unsup5 by simp
qed

section \<open>Resolutions\<close>

lemma of_char_digit_char: "d < 10 \<Longrightarrow> (of_char (digit_char d) :: nat) = 48 + d"
  by (simp add: digit_char_def)

lemma is_digit_digit_char: "d < 10 \<Longrightarrow> is_digit (digit_char d)"
  by (simp add: is_digit_def of_char_digit_char)

lemma digit_val_digit_char: "d < 10 \<Longrightarrow> digit_val (digit_char d) = d"
  by (simp add: digit_val_def of_char_digit_char)

lemma digit_char_neq_x: "d < 10 \<Longrightarrow> digit_char d \<noteq> CHR ''x''"
proof
  assume d: "d < 10" and "digit_char d = CHR ''x''"
  then have "(of_char (digit_char d) :: nat) = of_char CHR ''x''"
    by simp
  with d show False
    by (simp add: of_char_digit_char)
qed

lemma digit_char_neq_sign: "d < 10 \<Longrightarrow> digit_char d \<noteq> CHR ''-'' \<and> digit_char d \<noteq> CHR ''+''"
proof (intro conjI notI)
  assume d: "d < 10" and "digit_char d = CHR ''-''"
  then have "(of_char (digit_char d) :: nat) = of_char CHR ''-''"
    by simp
  with d show False
    by (simp add: of_char_digit_char)
next
  assume d: "d < 10" and "digit_char d = CHR ''+''"
  then have "(of_char (digit_char d) :: nat) = of_char CHR ''+''"
    by simp
  with d show False
    by (simp add: of_char_digit_char)
qed

lemma str_of_nat_digits: "list_all is_digit (str_of_nat n)"
proof (induction n rule: str_of_nat.induct)
  case (1 n)
  show ?case
  proof (cases "n < 10")
    case True
    then show ?thesis
      by (simp add: str_of_nat.simps [of n] is_digit_digit_char)
  next
    case False
    then show ?thesis
      using 1 by (simp add: str_of_nat.simps [of n] is_digit_digit_char)
  qed
qed

lemma str_of_nat_not_Nil: "str_of_nat n \<noteq> []"
  by (simp add: str_of_nat.simps [of n])

lemma nat_of_digits_snoc: "nat_of_digits (ds @ [c]) = 10 * nat_of_digits ds + digit_val c"
  by (simp add: nat_of_digits_def)

lemma nat_of_digits_str_of_nat: "nat_of_digits (str_of_nat n) = n"
proof (induction n rule: str_of_nat.induct)
  case (1 n)
  show ?case
  proof (cases "n < 10")
    case True
    then show ?thesis
      by (simp add: str_of_nat.simps [of n] nat_of_digits_def digit_val_digit_char)
  next
    case False
    then have "nat_of_digits (str_of_nat n) = 10 * (n div 10) + n mod 10"
      using 1 by (simp add: str_of_nat.simps [of n] nat_of_digits_snoc digit_val_digit_char)
    then show ?thesis
      by simp
  qed
qed

lemma is_digit_not_x: "is_digit c \<Longrightarrow> c \<noteq> CHR ''x''"
  by (auto simp: is_digit_def)

lemma is_digit_not_sign: "is_digit c \<Longrightarrow> c \<noteq> CHR ''-'' \<and> c \<noteq> CHR ''+''"
  by (auto simp: is_digit_def)

lemma is_digit_not_space: "is_digit c \<Longrightarrow> \<not> is_space c \<and> \<not> is_space_ascii c"
  by (auto simp: is_digit_def is_space_def is_space_ascii_def)

lemma is_digit_not_underscore: "is_digit c \<Longrightarrow> c \<noteq> CHR ''_''"
  by (auto simp: is_digit_def)

lemma underscores_ok_plain:
  "CHR ''_'' \<notin> set s \<Longrightarrow> p \<noteq> CHR ''_'' \<Longrightarrow> underscores_ok p s"
  by (induction s arbitrary: p) auto

lemma strip_with_id:
  assumes "s \<noteq> []" and "\<not> sp (hd s)" and "\<not> sp (last s)"
  shows "strip_with sp s = s"
proof -
  have a: "dropWhile sp s = s"
    using assms(1,2) by (cases s) auto
  obtain xs x where s: "s = xs @ [x]"
    using assms(1) by (cases s rule: rev_cases) auto
  have "dropWhile sp (rev s) = rev s"
    using assms(3) by (simp add: s)
  then show ?thesis
    by (simp add: strip_with_def a)
qed

lemma number_text_plain:
  assumes "s \<noteq> []" and "CHR ''_'' \<notin> set s" and "\<not> sp (hd s)" and "\<not> sp (last s)"
  shows "number_text sp s = Some s"
proof -
  have "underscores_ok (CHR 0x00) s"
    by (rule underscores_ok_plain [OF assms(2)]) simp
  moreover have "filter (\<lambda>c. c \<noteq> CHR ''_'') s = s"
    using assms(2) by (induction s) auto
  ultimately show ?thesis
    using strip_with_id [OF assms(1,3,4)] by (simp add: number_text_def)
qed

lemma number_text_digits:
  assumes "ds \<noteq> []" and "list_all is_digit ds"
  shows "number_text is_space ds = Some ds"
proof (rule number_text_plain [OF assms(1)])
  show "CHR ''_'' \<notin> set ds"
    using assms(2) is_digit_not_underscore by (auto simp: list_all_iff)
  have "is_digit (hd ds)" "is_digit (last ds)"
    using assms by (auto simp: list_all_iff)
  then show "\<not> is_space (hd ds)" "\<not> is_space (last ds)"
    using is_digit_not_space by blast+
qed

lemma int_of_str_str_of_nat: "int_of_str (str_of_nat n) = Inr (int n)"
proof -
  have ne: "str_of_nat n \<noteq> []"
    by (rule str_of_nat_not_Nil)
  have ds: "list_all is_digit (str_of_nat n)"
    by (rule str_of_nat_digits)
  from ne ds have "is_digit (hd (str_of_nat n))"
    by (cases "str_of_nat n") auto
  then have "hd (str_of_nat n) \<noteq> CHR ''-''" "hd (str_of_nat n) \<noteq> CHR ''+''"
    using is_digit_not_sign by blast+
  then show ?thesis
    using ne ds number_text_digits [OF ne ds]
    by (simp add: int_of_str_def int_of_text_def nat_of_digits_str_of_nat)
qed

lemma split_on_absent: "sep \<notin> set s \<Longrightarrow> split_on sep s = [s]"
  by (induction s) auto

lemma split_on_once:
  "sep \<notin> set a \<Longrightarrow> sep \<notin> set b \<Longrightarrow> split_on sep (a @ sep # b) = [a, b]"
  by (induction a) (auto simp: split_on_absent)

lemma x_notin_str_of_nat: "CHR ''x'' \<notin> set (str_of_nat n)"
  using str_of_nat_digits [of n] is_digit_not_x by (auto simp: list_all_iff)

lemma resolution_key_wh2str: "resolution_key (wh2str wh) = Inr (wh_key wh)"
  by (simp add: resolution_key_def wh2str_def split_on_once x_notin_str_of_nat
      int_of_str_str_of_nat wh_key_def)

lemma collect_map_Inr: "collect (map (\<lambda>x. Inr (f x)) xs) = Inr (map f xs)"
  by (induction xs) auto

lemma insort_key_map:
  "insort_key f (g x) (map g ys) = map g (insort_key (\<lambda>y. f (g y)) x ys)"
  by (induction ys) auto

lemma sort_key_map: "sort_key f (map g xs) = map g (sort_key (\<lambda>y. f (g y)) xs)"
  by (induction xs) (auto simp: insort_key_map)

lemma sort_key_reverse_wh2str:
  "sort_key_reverse resolution_key (map wh2str sizes)
     = Inr (map wh2str (rev (sort_key wh_key (rev sizes))))"
proof -
  have k: "map resolution_key (map wh2str sizes) = map (\<lambda>wh. Inr (wh_key wh)) sizes"
    by (simp add: resolution_key_wh2str)
  have z: "rev (zip (map wh_key sizes) (map wh2str sizes))
      = map (\<lambda>wh. (wh_key wh, wh2str wh)) (rev sizes)"
    by (simp add: zip_map_map zip_same_conv_map rev_map)
  have "map snd (rev (sort_key fst (rev (zip (map wh_key sizes) (map wh2str sizes)))))
      = map wh2str (rev (sort_key wh_key (rev sizes)))"
    unfolding z by (simp add: sort_key_map rev_map comp_def)
  then show ?thesis
    by (simp only: sort_key_reverse_def k collect_map_Inr sum.case)
qed

lemma enum_framesizes_from:
  assumes "answers_sizes ioctl pixelformat sizes" and "k \<le> length sizes"
  shows "enum_framesizes ioctl pixelformat (of_nat k) acc = Some (acc @ map wh2str (drop k sizes))"
  using assms(2)
proof (induction "length sizes - k" arbitrary: k acc)
  case 0
  then have k: "k = length sizes"
    by simp
  have "case ioctl pixelformat (of_nat (length sizes)) of
          None \<Rightarrow> True
        | Some frm \<Rightarrow> frmsize_type frm \<noteq> V4L2_FRMSIZE_TYPE_DISCRETE"
    using assms(1) by (simp add: answers_sizes_def)
  then show ?case
    unfolding k by (subst enum_framesizes.simps) (simp split: option.splits)
next
  case (Suc d)
  then have lt: "k < length sizes"
    by simp
  have a: "ioctl pixelformat (of_nat k) =
      Some \<lparr> frmsize_type = V4L2_FRMSIZE_TYPE_DISCRETE,
             discrete_width = fst (sizes ! k), discrete_height = snd (sizes ! k) \<rparr>"
    using assms(1) lt by (simp add: answers_sizes_def)
  have ih: "enum_framesizes ioctl pixelformat (of_nat (Suc k)) (acc @ [wh2str (sizes ! k)])
      = Some ((acc @ [wh2str (sizes ! k)]) @ map wh2str (drop (Suc k) sizes))"
    using Suc.hyps(1) [of "Suc k"] Suc.hyps(2) lt by simp
  have "enum_framesizes ioctl pixelformat (of_nat k) acc
      = enum_framesizes ioctl pixelformat (of_nat (Suc k)) (acc @ [wh2str (sizes ! k)])"
    by (subst enum_framesizes.simps) (simp add: a add.commute)
  also have "\<dots> = Some (acc @ map wh2str (sizes ! k # drop (Suc k) sizes))"
    using ih by simp
  also have "sizes ! k # drop (Suc k) sizes = drop k sizes"
    using lt by (simp add: Cons_nth_drop_Suc)
  finally show ?case .
qed

lemma wh_key_le: "wh_key b \<le> wh_key a \<longleftrightarrow> fst b < fst a \<or> (fst a = fst b \<and> snd b \<le> snd a)"
  by (auto simp: wh_key_def word_less_def word_le_def word_uint_eq_iff)

lemma wh_descending_sorted: "wh_descending (rev (sort_key wh_key ys))"
proof -
  have "sorted (map wh_key (sort_key wh_key ys))"
    by (rule sorted_sort_key)
  then have "sorted_wrt (\<lambda>a b. wh_key a \<le> wh_key b) (sort_key wh_key ys)"
    by (simp add: sorted_map)
  then have "sorted_wrt (\<lambda>a b. wh_key b \<le> wh_key a) (rev (sort_key wh_key ys))"
    by (simp add: sorted_wrt_rev)
  then show ?thesis
    by (simp add: wh_descending_def wh_key_le)
qed

text \<open>
  C4 (amended). When the device enumerates the discrete sizes \<open>sizes\<close> and then stops,
  \<open>get_resolutions\<close> returns, without an exception, the texts of a rearrangement of
  \<open>sizes\<close> that is in descending lexicographic order of (width, height): widths never
  increase along the list, and among equal widths heights never increase.
\<close>

theorem get_resolutions_sorted:
  assumes "answers_sizes ioctl pixelformat sizes"
  shows "\<exists>sorted_sizes. get_resolutions ioctl pixelformat = Some (Inr (map wh2str sorted_sizes))
           \<and> mset sorted_sizes = mset sizes \<and> wh_descending sorted_sizes"
proof -
  have "enum_framesizes ioctl pixelformat 0 [] = Some (map wh2str sizes)"
    using enum_framesizes_from [OF assms, of 0 "[]"] by simp
  then have "get_resolutions ioctl pixelformat
      = Some (Inr (map wh2str (rev (sort_key wh_key (rev sizes)))))"
    by (simp add: get_resolutions_def sort_key_reverse_wh2str)
  moreover have "mset (rev (sort_key wh_key (rev sizes))) = mset sizes"
    by simp
  ultimately show ?thesis
    using wh_descending_sorted by blast
qed

lemma answers_sizes_list_driver:
  "length sizes < 2 ^ 32 \<Longrightarrow> answers_sizes (list_driver sizes) pixelformat sizes"
  by (auto simp: answers_sizes_def list_driver_def unat_of_nat)

theorem get_resolutions_sorted_witness:
  "answers_sizes (list_driver [(800, 600), (864, 480)]) 0 [(800, 600), (864, 480)]
   \<and> (\<exists>s. get_resolutions (list_driver [(800, 600), (864, 480)]) 0 = Some (Inr (map wh2str s))
         \<and> mset s = mset [(800, 600), (864, 480)] \<and> wh_descending s)
   \<and> get_resolutions (list_driver [(800, 600), (864, 480)]) 0
       = Some (Inr [''864x480'', ''800x600''])"
proof -
  have a: "answers_sizes (list_driver [(800, 600), (864, 480)]) 0 [(800, 600), (864, 480)]"
    by (rule answers_sizes_list_driver) simp
  have e: "get_resolutions (list_driver [(800, 600), (864, 480)]) 0
      = Some (Inr [''864x480'', ''800x600''])"
    by code_simp
  show ?thesis
    using get_resolutions_sorted [OF a] a e by blast
qed

text \<open>
  The list is not in descending order of pixel area: a device offering 800x600 and
  864x480 gets 864x480 (414720 pixels) before 800x600 (480000 pixels).
\<close>

theorem get_resolutions_area_counterexample:
  "get_resolutions (list_driver [(800, 600), (864, 480)]) 0 = Some (Inr [''864x480'', ''800x600''])
   \<and> resolution_area ''864x480'' = 414720 \<and> resolution_area ''800x600'' = 480000
   \<and> \<not> area_descending [''864x480'', ''800x600'']"
  by code_simp

section \<open>Floating point numbers\<close>

lemma round_half_even_le: "of_int (round_half_even x) \<le> x + 1"
proof -
  have "round_half_even x \<le> \<lfloor>x\<rfloor> + 1"
    by (simp add: round_half_even_def Let_def)
  then have "(of_int (round_half_even x) :: rat) \<le> of_int (\<lfloor>x\<rfloor> + 1)"
    by (simp only: of_int_le_iff)
  also have "\<dots> \<le> x + 1"
    by simp
  finally show ?thesis .
qed

lemma ilog2_le:
  assumes "0 < x"
  shows "2 powi (ilog2 x) \<le> x"
proof -
  obtain p q where pq: "quotient_of x = (p, q)"
    by (cases "quotient_of x")
  have q: "0 < q"
    using pq by (rule quotient_of_denom_pos)
  have x: "x = of_int p / of_int q"
    using pq by (rule quotient_of_div)
  have p: "0 < p"
    using assms q x by (simp add: zero_less_divide_iff)
  define k where "k = bitlen p - bitlen q"
  show ?thesis
  proof (cases "2 powi k \<le> x")
    case True
    then show ?thesis
      by (simp add: ilog2_def pq k_def)
  next
    case False
    have bp: "1 \<le> bitlen p"
      using p by (simp add: bitlen_def floorlog_def)
    have bq: "0 \<le> bitlen q"
      by (simp add: bitlen_def)
    have lp: "(2::rat) powi (bitlen p - 1) \<le> of_int p"
    proof -
      have "2 ^ nat (bitlen p - 1) \<le> p"
        using bitlen_bounds [OF p] by simp
      then have "(of_int (2 ^ nat (bitlen p - 1)) :: rat) \<le> of_int p"
        by (simp only: of_int_le_iff)
      then show ?thesis
        using bp by (simp add: power_int_def)
    qed
    have uq: "of_int q \<le> (2::rat) powi (bitlen q)"
    proof -
      have "q < 2 ^ nat (bitlen q)"
        using bitlen_bounds [OF q] by simp
      then have "(of_int q :: rat) < of_int (2 ^ nat (bitlen q))"
        by (simp only: of_int_less_iff)
      then show ?thesis
        using bq by (simp add: power_int_def)
    qed
    have keq: "k - 1 = (bitlen p - 1) - bitlen q"
      by (simp add: k_def)
    have "(2::rat) powi ((bitlen p - 1) - bitlen q) = 2 powi (bitlen p - 1) / 2 powi (bitlen q)"
      by (rule power_int_diff) simp
    then have "(2::rat) powi (k - 1) = 2 powi (bitlen p - 1) / 2 powi (bitlen q)"
      by (simp only: keq)
    also have "\<dots> \<le> of_int p / of_int q"
      using lp uq p q by (intro frac_le) auto
    finally have "(2::rat) powi (k - 1) \<le> x"
      using x by simp
    with False show ?thesis
      by (simp add: ilog2_def pq k_def)
  qed
qed

lemma ilog2_upper:
  assumes "0 < x" and "x \<le> 2 powi n"
  shows "ilog2 x \<le> n"
proof -
  have le: "(2::rat) powi (ilog2 x) \<le> 2 powi n"
    using ilog2_le [OF assms(1)] assms(2) by simp
  show ?thesis
  proof (rule ccontr)
    assume "\<not> ilog2 x \<le> n"
    then have "n < ilog2 x"
      by simp
    then have "(2::rat) powi n < 2 powi (ilog2 x)"
      by (rule power_int_strict_increasing) simp
    with le show False
      by simp
  qed
qed

lemma round_double_finite:
  assumes "\<bar>x\<bar> \<le> 2 powi 1000"
  shows "\<exists>y. round_double x = Fin y"
proof (cases "x = 0")
  case True
  then show ?thesis
    by (simp add: round_double_def)
next
  case False
  define a where "a = \<bar>x\<bar>"
  define e where "e = max (ilog2 a - 52) (- 1074)"
  define m where "m = round_half_even (a / 2 powi e)"
  have a: "0 < a" "a \<le> 2 powi 1000"
    using False assms by (simp_all add: a_def)
  have "ilog2 a \<le> 1000"
    using a by (rule ilog2_upper)
  then have e: "e \<le> 948"
    by (simp add: e_def)
  have pe: "(0::rat) < 2 powi e"
    by simp
  have "of_int m * 2 powi e \<le> (a / 2 powi e + 1) * 2 powi e"
    unfolding m_def using round_half_even_le [of "a / 2 powi e"] pe
    by (intro mult_right_mono) auto
  also have "\<dots> = a + 2 powi e"
    using pe by (simp add: field_simps)
  also have "\<dots> \<le> 2 powi 1000 + 2 powi 1000"
    using a(2) power_int_increasing [of e 1000 "2::rat"] e by simp
  also have "\<dots> = (2::rat) powi (1000 + 1)"
    by (subst power_int_add) simp_all
  also have "\<dots> < 2 powi 1024"
    by (rule power_int_strict_increasing) simp_all
  finally have lt: "of_int m * 2 powi e < (2::rat) powi 1024" .
  have "(2::rat) powi 1024 = 2 powi (1024 - e) * 2 powi e"
    by (subst power_int_add [symmetric]) simp_all
  with lt have "of_int m * 2 powi e < (2::rat) powi (1024 - e) * 2 powi e"
    by (simp only:)
  with pe have "of_int m < (2::rat) powi (1024 - e)"
    by (simp only: mult_less_cancel_right_pos)
  also have "\<dots> = of_int (2 ^ nat (1024 - e))"
    using e by (simp add: power_int_def)
  finally have "m < 2 ^ nat (1024 - e)"
    by (simp only: of_int_less_iff)
  then have "bitlen m \<le> 1024 - e"
    using e by (simp add: bitlen_le_iff_power)
  then show ?thesis
    using False by (simp add: round_double_def Let_def a_def [symmetric] e_def [symmetric]
        m_def [symmetric])
qed

lemma int_truediv_uint32:
  fixes a b :: "32 word"
  assumes "b \<noteq> 0"
  shows "\<exists>q. int_truediv (uint a) (uint b) = Inr (Fin q)"
proof -
  define A where "A = uint a"
  define B where "B = uint b"
  have "B \<noteq> 0"
    using assms by (simp add: B_def uint_0_iff)
  moreover have "0 \<le> B"
    by (simp add: B_def)
  ultimately have b: "1 \<le> B"
    by linarith
  have a: "0 \<le> A" "A < 2 ^ 32"
    using uint_bounded [of a] by (simp_all add: A_def)
  have rb: "(1::rat) \<le> of_int B"
    using b by simp
  have ra: "(0::rat) \<le> of_int A"
    using a by simp
  have "\<bar>(of_int A :: rat) / of_int B\<bar> = of_int A / of_int B"
    using ra rb by simp
  also have "\<dots> \<le> of_int A / 1"
    using ra rb by (intro divide_left_mono) auto
  also have "\<dots> \<le> 2 powi 1000"
  proof -
    have "(of_int A :: rat) \<le> of_int (2 ^ 32)"
      using a by (simp only: of_int_le_iff)
    also have "\<dots> = (2::rat) powi 32"
      by (simp add: power_int_def)
    also have "\<dots> \<le> 2 powi 1000"
      by (rule power_int_increasing) simp_all
    finally show ?thesis
      by simp
  qed
  finally obtain q where "round_double (of_int A / of_int B) = Fin q"
    using round_double_finite by blast
  then show ?thesis
    using b by (simp add: int_truediv_def A_def [symmetric] B_def [symmetric])
qed

lemma dn2str_total: "numerator dn \<noteq> 0 \<Longrightarrow> \<exists>s. dn2str dn = Inr s"
  using int_truediv_uint32 [of "numerator dn" "denominator dn"]
  by (auto simp: dn2str_def)

























lemma py_trunc_of_nat: "py_trunc (of_nat t) = int t"
  by (simp add: py_trunc_def)

section \<open>Frame rate\<close>

lemma get_fps_total: "\<exists>v. get_fps drv fd = Inr v"
proof (cases "VIDIOC_G_PARM drv (dev fd)")
  case None
  then show ?thesis
    by (simp add: get_fps_def)
next
  case (Some tf)
  show ?thesis
  proof (cases "numerator tf = 0 \<or> denominator tf = 0")
    case True
    then show ?thesis
      using Some by (auto simp: get_fps_def)
  next
    case False
    then obtain s where "dn2str tf = Inr s"
      using dn2str_total [of tf] by blast
    then show ?thesis
      using Some False by (simp add: get_fps_def)
  qed
qed



lemma find_idx_from_Some:
  "find_idx_from n P xs = Some i \<Longrightarrow> n \<le> i \<and> i - n < length xs \<and> P (xs ! (i - n))"
proof (induction xs arbitrary: n)
  case Nil
  then show ?case
    by simp
next
  case (Cons x xs)
  show ?case
  proof (cases "P x")
    case True
    then show ?thesis
      using Cons.prems by simp
  next
    case False
    then have "find_idx_from (Suc n) P xs = Some i"
      using Cons.prems by simp
    then have "Suc n \<le> i \<and> i - Suc n < length xs \<and> P (xs ! (i - Suc n))"
      by (rule Cons.IH)
    then show ?thesis
      by (auto simp: Suc_diff_Suc less_eq_Suc_le nth_Cons')
  qed
qed

lemma find_by_text_id_Some:
  "find_by_text_id cs k = Some i \<Longrightarrow> i < length cs \<and> text_id (cs ! i) = k"
  using find_idx_from_Some [of 0 "\<lambda>c. text_id c = k" cs i]
  by (simp add: find_by_text_id_def find_idx_def)

text \<open>
  A value that the frame rate control accepts, that is, one that \<^verbatim>\<open>setup_ctrls\<close> finds in
  the menu of the control named \<open>fps\<close>, is handed to \<^verbatim>\<open>set_fps\<close>.
\<close>

lemma setup_ctrl_fps:
  assumes "find_by_text_id cs ''fps'' = Some i"
    and "ctrl_type (cs ! i) \<noteq> ''info''"
    and "find_menu_by_text_id (menu (cs ! i)) (VStr fps) = Some m"
  shows "V4L2FmtCtrls_setup_ctrl drv (''fps'', VStr fps) (cs, errs, fd)
    = set_fps drv fd cs i fps errs"
  using assms find_by_text_id_Some [OF assms(1)]
  by (simp add: V4L2FmtCtrls_setup_ctrl_def)



lemma set_fps_example:
  "set_fps example_fmt_driver example_fd [example_fps_ctrl] 0 ''30'' []
     = Inr ([example_fps_ctrl\<lparr> ctrl_value := VStr ''30'' \<rparr>], [],
            \<lparr> dev = \<lparr> numerator = 10, denominator = 300 \<rparr>,
              writes = [S_PARM \<lparr> numerator = 10, denominator = 300 \<rparr>] \<rparr>)"
  by code_simp

section \<open>Format changes seen by the listener\<close>

lemma update_ctrl_opt:
  "update_ctrl r v st = foldl update_step st (map (\<lambda>i. (i, v)) (opt_list r))"
  by (cases r) (simp_all add: update_ctrl_def update_step_def opt_list_def split: prod.splits)

lemma query_fmt_changes_fold:
  "query_fmt_changes drv fd fc cb =
     (case foldl update_step (ctrls fc, []) (live_values drv fd fc) of
        (cs, updates) \<Rightarrow>
          Inr (fc\<lparr> ctrls := cs \<rparr>, if updates \<noteq> [] then cb @ [cs ! hd updates] else cb))"
proof -
  obtain v where v: "get_fps drv fd = Inr v"
    using get_fps_total by blast
  show ?thesis
  proof (cases "get_fmt drv fd")
    case None
    then show ?thesis
      by (simp add: query_fmt_changes_def live_values_def v update_ctrl_opt Let_def)
  next
    case (Some fmt)
    then show ?thesis
      by (simp add: query_fmt_changes_def live_values_def v update_ctrl_opt Let_def)
  qed
qed

lemma live_values_refs:
  assumes "fmt_refs_ok fc"
  shows "distinct (map fst (live_values drv fd fc))
    \<and> (\<forall>iv \<in> set (live_values drv fd fc). fst iv < length (ctrls fc))"
proof -
  obtain v where v: "get_fps drv fd = Inr v"
    using get_fps_total by blast
  show ?thesis
  proof (cases "get_fmt drv fd")
    case None
    then show ?thesis
      using assms
      by (auto simp: live_values_def v fmt_refs_ok_def Let_def opt_list_def
          split: option.splits)
  next
    case (Some fmt)
    then show ?thesis
      using assms
      by (auto simp: live_values_def v fmt_refs_ok_def Let_def opt_list_def
          split: option.splits)
  qed
qed

lemma update_all:
  assumes "distinct (map fst lv)" and "\<forall>iv \<in> set lv. fst iv < length cs"
  shows "\<exists>cs'. foldl update_step (cs, ups) lv
             = (cs', ups @ map fst (filter (\<lambda>iv. ctrl_value (cs ! fst iv) \<noteq> snd iv) lv))
           \<and> length cs' = length cs
           \<and> (\<forall>iv \<in> set lv. ctrl_value (cs' ! fst iv) = snd iv)
           \<and> (\<forall>j. j \<notin> fst ` set (filter (\<lambda>iv. ctrl_value (cs ! fst iv) \<noteq> snd iv) lv)
                 \<longrightarrow> cs' ! j = cs ! j)"
  using assms
proof (induction lv arbitrary: cs ups)
  case Nil
  then show ?case
    by simp
next
  case (Cons iv rest)
  obtain i v where iv: "iv = (i, v)"
    by (cases iv)
  have i: "i < length cs" and fresh: "i \<notin> fst ` set rest" and d: "distinct (map fst rest)"
    using Cons.prems by (auto simp: iv)
  define cs1 where
    "cs1 = (if ctrl_value (cs ! i) \<noteq> v then cs[i := (cs ! i)\<lparr> ctrl_value := v \<rparr>] else cs)"
  define ups1 where "ups1 = (if ctrl_value (cs ! i) \<noteq> v then ups @ [i] else ups)"
  have step: "update_step (cs, ups) iv = (cs1, ups1)"
    by (simp add: update_step_def update_ctrl_def iv cs1_def ups1_def)
  have len1: "length cs1 = length cs"
    by (simp add: cs1_def)
  have at_i: "ctrl_value (cs1 ! i) = v"
    using i by (simp add: cs1_def)
  have other: "cs1 ! j = cs ! j" if "j \<noteq> i" for j
    using that by (simp add: cs1_def)
  have same: "filter (\<lambda>iv. ctrl_value (cs1 ! fst iv) \<noteq> snd iv) rest
      = filter (\<lambda>iv. ctrl_value (cs ! fst iv) \<noteq> snd iv) rest"
  proof (rule filter_cong [OF refl])
    fix x assume "x \<in> set rest"
    then have "fst x \<noteq> i"
      using fresh by auto
    then show "(ctrl_value (cs1 ! fst x) \<noteq> snd x) = (ctrl_value (cs ! fst x) \<noteq> snd x)"
      by (simp add: other)
  qed
  have bound: "\<forall>iv \<in> set rest. fst iv < length cs1"
    using Cons.prems(2) len1 by simp
  from Cons.IH [OF d bound, of ups1] obtain cs' where
    f: "foldl update_step (cs1, ups1) rest
          = (cs', ups1 @ map fst (filter (\<lambda>iv. ctrl_value (cs ! fst iv) \<noteq> snd iv) rest))"
    and l: "length cs' = length cs1"
    and a: "\<forall>iv \<in> set rest. ctrl_value (cs' ! fst iv) = snd iv"
    and u: "\<forall>j. j \<notin> fst ` set (filter (\<lambda>iv. ctrl_value (cs ! fst iv) \<noteq> snd iv) rest)
                 \<longrightarrow> cs' ! j = cs1 ! j"
    unfolding same by blast
  have keep_i: "cs' ! i = cs1 ! i"
    using u fresh by auto
  have 1: "foldl update_step (cs, ups) (iv # rest)
      = (cs', ups @ map fst (filter (\<lambda>iv. ctrl_value (cs ! fst iv) \<noteq> snd iv) (iv # rest)))"
    using f step by (simp add: iv ups1_def)
  have 2: "length cs' = length cs"
    using l len1 by simp
  have 3: "\<forall>x \<in> set (iv # rest). ctrl_value (cs' ! fst x) = snd x"
    using a keep_i at_i by (simp add: iv)
  have 4: "\<forall>j. j \<notin> fst ` set (filter (\<lambda>iv. ctrl_value (cs ! fst iv) \<noteq> snd iv) (iv # rest))
                 \<longrightarrow> cs' ! j = cs ! j"
  proof (intro allI impI)
    fix j
    assume j: "j \<notin> fst ` set (filter (\<lambda>iv. ctrl_value (cs ! fst iv) \<noteq> snd iv) (iv # rest))"
    then have "j \<notin> fst ` set (filter (\<lambda>iv. ctrl_value (cs ! fst iv) \<noteq> snd iv) rest)"
      by auto
    then have c: "cs' ! j = cs1 ! j"
      using u by blast
    show "cs' ! j = cs ! j"
    proof (cases "j = i")
      case True
      then have "\<not> ctrl_value (cs ! i) \<noteq> v"
        using j by (auto simp: iv split: if_splits)
      then show ?thesis
        using c True by (simp add: cs1_def)
    next
      case False
      then show ?thesis
        using c other by simp
    qed
  qed
  show ?case
    using 1 2 3 4 by blast
qed

text \<open>
  C8. In a poll cycle that queries the format, with the three references pointing to
  different controls: the function returns; the callback has been invoked once more,
  with the first differing control of the three, when one or more differ, and not at all
  when none differs; afterwards every compared control holds the value the device
  reports, and a control that did not differ is unchanged.
\<close>

theorem query_fmt_changes_first_only:
  assumes "fmt_refs_ok fc"
  shows "\<exists>fc'. query_fmt_changes drv fd fc cb
             = Inr (fc', cb @ map (\<lambda>iv. ctrls fc' ! fst iv) (take 1 (differing drv fd fc)))
          \<and> (\<forall>iv \<in> set (live_values drv fd fc). ctrl_value (ctrls fc' ! fst iv) = snd iv)
          \<and> (\<forall>j. j \<notin> fst ` set (differing drv fd fc) \<longrightarrow> ctrls fc' ! j = ctrls fc ! j)
          \<and> (differing drv fd fc = [] \<longrightarrow> fc' = fc)"
proof -
  let ?lv = "live_values drv fd fc"
  let ?d = "differing drv fd fc"
  have "distinct (map fst ?lv)" and "\<forall>iv \<in> set ?lv. fst iv < length (ctrls fc)"
    using live_values_refs [OF assms] by blast+
  then obtain cs' where f: "foldl update_step (ctrls fc, []) ?lv = (cs', [] @ map fst ?d)"
    and l: "length cs' = length (ctrls fc)"
    and a: "\<forall>iv \<in> set ?lv. ctrl_value (cs' ! fst iv) = snd iv"
    and u: "\<forall>j. j \<notin> fst ` set ?d \<longrightarrow> cs' ! j = ctrls fc ! j"
    using update_all [of ?lv "ctrls fc" "[]"] unfolding differing_def by blast
  have cbs: "(if map fst ?d \<noteq> [] then cb @ [cs' ! hd (map fst ?d)] else cb)
      = cb @ map (\<lambda>iv. cs' ! fst iv) (take 1 ?d)"
    by (cases ?d) simp_all
  have q: "query_fmt_changes drv fd fc cb
      = Inr (fc\<lparr> ctrls := cs' \<rparr>, cb @ map (\<lambda>iv. cs' ! fst iv) (take 1 ?d))"
    using query_fmt_changes_fold [of drv fd fc cb] f cbs by simp
  have e: "fc\<lparr> ctrls := cs' \<rparr> = fc" if "?d = []"
  proof -
    have "cs' ! j = ctrls fc ! j" for j
      using u that by simp
    then have "cs' = ctrls fc"
      using l by (simp add: list_eq_iff_nth_eq)
    then show ?thesis
      by simp
  qed
  show ?thesis
    using q a u e by (intro exI [of _ "fc\<lparr> ctrls := cs' \<rparr>"]) simp
qed

theorem query_fmt_changes_first_only_witness:
  "fmt_refs_ok example_fmt_ctrls
   \<and> differing example_fmt_driver example_fd example_fmt_ctrls
       = [(0, VStr ''YUYV''), (1, VStr ''640x480'')]
   \<and> (\<exists>fc'. query_fmt_changes example_fmt_driver example_fd example_fmt_ctrls []
             = Inr (fc', [] @ map (\<lambda>iv. ctrls fc' ! fst iv)
                              (take 1 (differing example_fmt_driver example_fd example_fmt_ctrls)))
          \<and> (\<forall>iv \<in> set (live_values example_fmt_driver example_fd example_fmt_ctrls).
                ctrl_value (ctrls fc' ! fst iv) = snd iv)
          \<and> (\<forall>j. j \<notin> fst ` set (differing example_fmt_driver example_fd example_fmt_ctrls)
                \<longrightarrow> ctrls fc' ! j = ctrls example_fmt_ctrls ! j)
          \<and> (differing example_fmt_driver example_fd example_fmt_ctrls = []
                \<longrightarrow> fc' = example_fmt_ctrls))"
proof -
  have a: "fmt_refs_ok example_fmt_ctrls"
    by code_simp
  have b: "differing example_fmt_driver example_fd example_fmt_ctrls
       = [(0, VStr ''YUYV''), (1, VStr ''640x480'')]"
    by code_simp
  show ?thesis
    using query_fmt_changes_first_only [OF a, of example_fmt_driver example_fd "[]"] a b
    by (intro conjI) assumption+
qed

lemma query_fmt_changes_example:
  "query_fmt_changes example_fmt_driver example_fd example_fmt_ctrls []
     = Inr (example_fmt_ctrls
              \<lparr> ctrls := [example_menu_ctrl ''pixelformat'' ''Pixel format'' ''MJPG''
                            \<lparr> ctrl_value := VStr ''YUYV'' \<rparr>,
                          example_menu_ctrl ''resolution'' ''Resolution'' ''1280x720''
                            \<lparr> ctrl_value := VStr ''640x480'' \<rparr>,
                          example_fps_ctrl] \<rparr>,
            [example_menu_ctrl ''pixelformat'' ''Pixel format'' ''MJPG''
               \<lparr> ctrl_value := VStr ''YUYV'' \<rparr>])"
  by code_simp

section \<open>Writes of the generic backend\<close>






lemma setup_ctrls_readback_mismatch_example:
  "V4L2Ctrls_setup_ctrls example_limiting_driver
     [(''brightness'', VStr ''200%''), (''brightness'', VInt 20)]
     ([example_int_ctrl], [], example_ctrl_fd)
   = Inr ([example_int_ctrl\<lparr> ctrl_value := VInt 20 \<rparr>],
          [V4L2Ctrls_cant_set_using ''brightness'' (VStr ''200%'') 100],
          \<lparr> dev = (), writes = [S_CTRL 9963776 200, S_CTRL 9963776 20] \<rparr>)"
  by code_simp



end
